theory Spec2Isabelle
  imports Main "HOL-Library.Extended_Nat"
begin

section \<open>JavaScript strings\<close>

text \<open>
  A JavaScript string is a sequence of UTF-16 code units.  The patterns of the chat parser
  and of the poll parser mention code units above 255 (the byte order mark, the poll and
  option symbols), so a code unit is a natural number here and a string is a list of them.
  \<open>js\<close> turns an Isabelle literal into such a string.
\<close>

type_synonym cu = nat
type_synonym jsstring = "cu list"

definition js :: "string \<Rightarrow> jsstring" where
  "js s = map of_char s"

text \<open>The code units \<open>String.prototype.trim\<close> strips and \<open>\s\<close> matches: WhiteSpace and LineTerminator.\<close>

definition isWhiteSpace :: "cu \<Rightarrow> bool" where
  "isWhiteSpace c =
     ((9 \<le> c \<and> c \<le> 13) \<or> c = 32 \<or> c = 160 \<or> c = 5760 \<or> (8192 \<le> c \<and> c \<le> 8202)
      \<or> c = 8232 \<or> c = 8233 \<or> c = 8239 \<or> c = 8287 \<or> c = 12288 \<or> c = 65279)"

text \<open>The code units the pattern \<open>.\<close> refuses: the line terminators LF, CR, U+2028, U+2029.\<close>

definition isLineTerminator :: "cu \<Rightarrow> bool" where
  "isLineTerminator c = (c = 10 \<or> c = 13 \<or> c = 8232 \<or> c = 8233)"

definition isDigit :: "cu \<Rightarrow> bool" where
  "isDigit c = (48 \<le> c \<and> c \<le> 57)"

definition trim :: "jsstring \<Rightarrow> jsstring" where
  "trim s = rev (dropWhile isWhiteSpace (rev (dropWhile isWhiteSpace s)))"

text \<open>\<open>s.split('\n')\<close>: one more piece than there are line feeds; the empty string gives one empty piece.\<close>

fun splitNL :: "jsstring \<Rightarrow> jsstring list" where
  "splitNL [] = [[]]"
| "splitNL (c # cs) =
     (if c = 10 then [] # splitNL cs
      else (case splitNL cs of [] \<Rightarrow> [[c]] | l # ls \<Rightarrow> (c # l) # ls))"

text \<open>\<open>s.indexOf(c)\<close> for a single code unit: the first position, or -1.\<close>

fun indexOf :: "jsstring \<Rightarrow> cu \<Rightarrow> int" where
  "indexOf [] c = -1"
| "indexOf (x # xs) c =
     (if x = c then 0 else (let i = indexOf xs c in if i < 0 then -1 else i + 1))"

definition startsWith :: "jsstring \<Rightarrow> jsstring \<Rightarrow> bool" where
  "startsWith s p = (take (length p) s = p)"

fun includesStr :: "jsstring \<Rightarrow> jsstring \<Rightarrow> bool" where
  "includesStr [] p = (p = [])"
| "includesStr (x # xs) p = (startsWith (x # xs) p \<or> includesStr xs p)"

text \<open>\<open>s.replace(p, r)\<close> with a string pattern: the first occurrence only.\<close>

fun replaceStr :: "jsstring \<Rightarrow> jsstring \<Rightarrow> jsstring \<Rightarrow> jsstring" where
  "replaceStr [] p r = (if p = [] then r else [])"
| "replaceStr (x # xs) p r =
     (if startsWith (x # xs) p then r @ drop (length p) (x # xs) else x # replaceStr xs p r)"

text \<open>
  \<open>toLowerCase\<close> on the letters A to Z.  Outside ASCII the only code units whose lower case
  contains an ASCII letter are U+0130 (an \<open>i\<close> followed by U+0307) and U+212A (\<open>k\<close>); no
  comparison made by this program can tell them from a code unit left unchanged, since every
  phrase with a \<open>k\<close> is tested together with a sub-phrase without one.
\<close>

definition toLowerCase :: "jsstring \<Rightarrow> jsstring" where
  "toLowerCase s = map (\<lambda>c. if 65 \<le> c \<and> c \<le> 90 then c + 32 else c) s"

section \<open>Regular expressions\<close>

text \<open>
  The patterns of the source are matched by backtracking: every operator returns the list of
  ways it can match at the current position, in the order the engine tries them, and the
  match is the first way of the whole pattern.  A state is the position in the subject, the
  rest of the subject and the captures so far.
\<close>

datatype rx =
    Eps
  | Chr "cu \<Rightarrow> bool"
  | Seq rx rx
  | Alt rx rx
  | Star bool rx
  | Grp nat rx
  | Bol
  | Eoi

type_synonym rxstate = "nat \<times> jsstring \<times> jsstring option list"

fun rxm :: "rx \<Rightarrow> rxstate \<Rightarrow> rxstate list" where
  "rxm Eps s = [s]"
| "rxm (Chr p) (i, inp, c) =
     (case inp of [] \<Rightarrow> [] | x # xs \<Rightarrow> if p x then [(Suc i, xs, c)] else [])"
| "rxm (Seq a b) s = concat (map (rxm b) (rxm a s))"
| "rxm (Alt a b) s = rxm a s @ rxm b s"
| "rxm (Star greedy a) (i, inp, c) =
     (let more = concat (map (rxm (Star greedy a))
                   (filter (\<lambda>s'. length (fst (snd s')) < length inp) (rxm a (i, inp, c))))
      in if greedy then more @ [(i, inp, c)] else (i, inp, c) # more)"
| "rxm (Grp k a) (i, inp, c) =
     map (\<lambda>(j, inp', c'). (j, inp', c'[k := Some (take (j - i) inp)])) (rxm a (i, inp, c))"
| "rxm Bol (i, inp, c) = (if i = 0 then [(i, inp, c)] else [])"
| "rxm Eoi (i, inp, c) = (if inp = [] then [(i, inp, c)] else [])"

text \<open>
  The equation for \<open>Star\<close> unfolds itself on any state, so it is not a default rewrite
  rule; the evaluation rules below add it for concrete subjects.
\<close>

declare rxm.simps(5) [simp del]

text \<open>
  \<open>RegExp.prototype.exec\<close> without the global flag: the pattern is tried at every start
  position from the left, and the first position with a match wins.  The result is the
  JavaScript match array (element 0 the matched text, element k the k-th group, \<open>None\<close>
  for a group that took no part) with the index of the match.
\<close>

record rxmatch =
  index :: nat
  groups :: "jsstring option list"

definition rxAt :: "rx \<Rightarrow> nat \<Rightarrow> nat \<Rightarrow> jsstring \<Rightarrow> rxmatch option" where
  "rxAt r n i inp =
     (case rxm r (i, inp, replicate (Suc n) None) of
        [] \<Rightarrow> None
      | (j, inp', c) # _ \<Rightarrow> Some \<lparr>index = i, groups = c[0 := Some (take (j - i) inp)]\<rparr>)"

fun rxSearch :: "rx \<Rightarrow> nat \<Rightarrow> nat \<Rightarrow> jsstring \<Rightarrow> rxmatch option" where
  "rxSearch r n i [] = rxAt r n i []"
| "rxSearch r n i (x # xs) =
     (case rxAt r n i (x # xs) of Some m \<Rightarrow> Some m | None \<Rightarrow> rxSearch r n (Suc i) xs)"

definition rxExec :: "rx \<Rightarrow> nat \<Rightarrow> jsstring \<Rightarrow> rxmatch option" where
  "rxExec r n s = rxSearch r n 0 s"

text \<open>\<open>m[k]\<close> of a match array; a group that took no part reads as the empty string here.\<close>

definition grp :: "rxmatch \<Rightarrow> nat \<Rightarrow> jsstring" where
  "grp m k = (case groups m ! k of None \<Rightarrow> [] | Some s \<Rightarrow> s)"

text \<open>\<open>s.replace(r, '')\<close> for a pattern without the global flag: the first match is cut out.\<close>

definition rxRemove :: "rx \<Rightarrow> nat \<Rightarrow> jsstring \<Rightarrow> jsstring" where
  "rxRemove r n s =
     (case rxExec r n s of
        None \<Rightarrow> s
      | Some m \<Rightarrow> take (index m) s @ drop (index m + length (grp m 0)) s)"

text \<open>
  Under the \<open>i\<close> flag two code units match when their canonical forms (the upper case of the
  single code unit) agree, and a code unit outside ASCII is never made equal to one inside.
  The patterns of this program hold ASCII, U+00E2 (upper case U+00C2), U+0153 (upper case
  U+0152) and symbols without case; for these the canonical form is as follows.
\<close>

definition canonicalize :: "cu \<Rightarrow> cu" where
  "canonicalize c =
     (if 97 \<le> c \<and> c \<le> 122 then c - 32
      else if c = 226 then 194
      else if c = 339 then 338
      else c)"

definition chr :: "cu \<Rightarrow> rx" where
  "chr c = Chr (\<lambda>x. x = c)"

definition chrI :: "cu \<Rightarrow> rx" where
  "chrI c = Chr (\<lambda>x. canonicalize x = canonicalize c)"

fun str :: "jsstring \<Rightarrow> rx" where
  "str [] = Eps"
| "str (c # cs) = Seq (chr c) (str cs)"

fun strI :: "jsstring \<Rightarrow> rx" where
  "strI [] = Eps"
| "strI (c # cs) = Seq (chrI c) (strI cs)"

text \<open>\<open>r+\<close>, \<open>r+?\<close>, \<open>r?\<close>, \<open>r{n}\<close> and the greedy \<open>r{m,n}\<close>.\<close>

definition plus :: "bool \<Rightarrow> rx \<Rightarrow> rx" where
  "plus greedy r = Seq r (Star greedy r)"

definition opt :: "rx \<Rightarrow> rx" where
  "opt r = Alt r Eps"

fun times :: "nat \<Rightarrow> rx \<Rightarrow> rx" where
  "times 0 r = Eps"
| "times (Suc k) r = Seq r (times k r)"

fun upto :: "nat \<Rightarrow> rx \<Rightarrow> rx" where
  "upto 0 r = Eps"
| "upto (Suc k) r = Alt (Seq r (upto k r)) Eps"

definition rep :: "nat \<Rightarrow> nat \<Rightarrow> rx \<Rightarrow> rx" where
  "rep m n r = Seq (times m r) (upto (n - m) r)"

fun seqs :: "rx list \<Rightarrow> rx" where
  "seqs [] = Eps"
| "seqs [r] = r"
| "seqs (r # rs) = Seq r (seqs rs)"

fun alts :: "rx list \<Rightarrow> rx" where
  "alts [] = Eps"
| "alts [r] = r"
| "alts (r # rs) = Alt r (alts rs)"

definition digit :: rx where "digit = Chr isDigit"
definition space :: rx where "space = Chr isWhiteSpace"
definition dot :: rx where "dot = Chr (\<lambda>x. \<not> isLineTerminator x)"

section \<open>The chat parser (performanceUtils.js)\<close>

text \<open>
  The header pattern of \<open>parseChat\<close>:
  \<^verbatim>\<open>/^(\d{1,2}\/\d{1,2}\/\d{2,4}),\s*(\d{1,2}:\d{2}\s*[APMapm]{2})\s*-\s*(.+)$/i\<close>
\<close>

definition isAPM :: "cu \<Rightarrow> bool" where
  "isAPM x = (canonicalize x = 65 \<or> canonicalize x = 80 \<or> canonicalize x = 77)"

definition dateTimeRx :: rx where
  "dateTimeRx = seqs
     [Bol,
      Grp 1 (seqs [rep 1 2 digit, chr 47, rep 1 2 digit, chr 47, rep 2 4 digit]),
      chr 44, Star True space,
      Grp 2 (seqs [rep 1 2 digit, chr 58, times 2 digit, Star True space, times 2 (Chr isAPM)]),
      Star True space, chr 45, Star True space,
      Grp 3 (plus True dot),
      Eoi]"

definition dateTimeMatch :: "jsstring \<Rightarrow> rxmatch option" where
  "dateTimeMatch line = rxExec dateTimeRx 3 line"

text \<open>
  An attachment descriptor as \<open>extractAttachment\<close> builds it; \<open>fileType\<close> is its \<open>type\<close>
  field.  The file table is a JavaScript \<open>Map\<close> from names to blobs (objects, so a stored
  value is always truthy): a partial function.
\<close>

datatype fileCategory = Image | Video | Audio | Document | Unknown

record 'b attachment =
  filename :: jsstring
  fileType :: fileCategory
  originalText :: jsstring
  blob :: 'b

text \<open>\<open>filename.toLowerCase().split('.').pop()\<close>: what follows the last dot, or the whole name.\<close>

definition extension :: "jsstring \<Rightarrow> jsstring" where
  "extension fname = rev (takeWhile (\<lambda>x. x \<noteq> 46) (rev (toLowerCase fname)))"

definition imageTypes :: "jsstring list" where
  "imageTypes = map js [''jpg'', ''jpeg'', ''png'', ''gif'', ''webp'', ''bmp'', ''svg'']"

definition videoTypes :: "jsstring list" where
  "videoTypes = map js [''mp4'', ''avi'', ''mov'', ''wmv'', ''flv'', ''webm'']"

definition audioTypes :: "jsstring list" where
  "audioTypes = map js [''mp3'', ''wav'', ''ogg'', ''aac'', ''m4a'', ''flac'']"

definition documentTypes :: "jsstring list" where
  "documentTypes = map js [''pdf'', ''doc'', ''docx'', ''xls'', ''xlsx'', ''ppt'', ''pptx'', ''txt'']"

definition typeOfExtension :: "jsstring \<Rightarrow> fileCategory" where
  "typeOfExtension e =
     (if e \<in> set imageTypes then Image
      else if e \<in> set videoTypes then Video
      else if e \<in> set audioTypes then Audio
      else if e \<in> set documentTypes then Document
      else Unknown)"

definition getFileType :: "jsstring \<Rightarrow> fileCategory" where
  "getFileType fname = typeOfExtension (extension fname)"

text \<open>
  The three patterns of \<open>extractAttachment\<close>, in the order the source tries them:
  \<^verbatim>\<open>/<attached:\s*([^>]+)>/i\<close>,
  \<^verbatim>\<open>/(.+?)\s*\((file|image)\s+attached\)/i\<close> and
  \<^verbatim>\<open>/(IMG-\d+\.(jpg|jpeg|png|gif|webp|mp4)|Document-\d+\.(pdf|docx?|xlsx?|pptx?|txt|mp3|wav|ogg))/i\<close>.
\<close>

definition attachedPattern :: rx where
  "attachedPattern = seqs
     [strI (js ''<attached:''), Star True space, Grp 1 (plus True (Chr (\<lambda>x. x \<noteq> 62))), chr 62]"

definition fileAttachedPattern :: rx where
  "fileAttachedPattern = seqs
     [Grp 1 (plus False dot), Star True space, chr 40,
      Grp 2 (Alt (strI (js ''file'')) (strI (js ''image''))),
      plus True space, strI (js ''attached''), chr 41]"

definition directFilePattern :: rx where
  "directFilePattern = Grp 1 (Alt
     (seqs [strI (js ''IMG-''), plus True digit, chr 46,
            Grp 2 (alts [strI (js ''jpg''), strI (js ''jpeg''), strI (js ''png''),
                         strI (js ''gif''), strI (js ''webp''), strI (js ''mp4'')])])
     (seqs [strI (js ''Document-''), plus True digit, chr 46,
            Grp 3 (alts [strI (js ''pdf''),
                         Seq (strI (js ''doc'')) (opt (chrI 120)),
                         Seq (strI (js ''xls'')) (opt (chrI 120)),
                         Seq (strI (js ''ppt'')) (opt (chrI 120)),
                         strI (js ''txt''), strI (js ''mp3''), strI (js ''wav''),
                         strI (js ''ogg'')])]))"

text \<open>Each block of \<open>extractAttachment\<close>: the match, the name, the lookup, the descriptor.\<close>

definition attachedMatch :: "jsstring \<Rightarrow> (jsstring \<rightharpoonup> 'b) \<Rightarrow> 'b attachment option" where
  "attachedMatch messageText files =
     (case rxExec attachedPattern 1 messageText of
        None \<Rightarrow> None
      | Some m \<Rightarrow>
          (let name = trim (grp m 1) in
           case files name of
             None \<Rightarrow> None
           | Some file \<Rightarrow>
               Some \<lparr>filename = name, fileType = getFileType name,
                     originalText = grp m 0, blob = file\<rparr>))"

definition fileAttachedMatch :: "jsstring \<Rightarrow> (jsstring \<rightharpoonup> 'b) \<Rightarrow> 'b attachment option" where
  "fileAttachedMatch messageText files =
     (case rxExec fileAttachedPattern 2 messageText of
        None \<Rightarrow> None
      | Some m \<Rightarrow>
          (let name = trim (grp m 1) in
           case files name of
             None \<Rightarrow> None
           | Some file \<Rightarrow>
               Some \<lparr>filename = name, fileType = getFileType name,
                     originalText = grp m 0, blob = file\<rparr>))"

definition directFileMatch :: "jsstring \<Rightarrow> (jsstring \<rightharpoonup> 'b) \<Rightarrow> 'b attachment option" where
  "directFileMatch messageText files =
     (case rxExec directFilePattern 3 messageText of
        None \<Rightarrow> None
      | Some m \<Rightarrow>
          (let name = grp m 1 in
           case files name of
             None \<Rightarrow> None
           | Some file \<Rightarrow>
               Some \<lparr>filename = name, fileType = getFileType name,
                     originalText = name, blob = file\<rparr>))"

definition extractAttachment :: "jsstring \<Rightarrow> (jsstring \<rightharpoonup> 'b) \<Rightarrow> 'b attachment option" where
  "extractAttachment messageText files =
     (if messageText = [] then None
      else case attachedMatch messageText files of
        Some a \<Rightarrow> Some a
      | None \<Rightarrow>
          (case fileAttachedMatch messageText files of
             Some a \<Rightarrow> Some a
           | None \<Rightarrow> directFileMatch messageText files))"

datatype systemCategory =
  Joined | Left | Created | NameChanged | DescriptionChanged | IconChanged
  | Encryption | Ended | Other

definition getSystemMessageType :: "jsstring \<Rightarrow> systemCategory" where
  "getSystemMessageType msg =
     (let lowerMessage = toLowerCase msg in
      if includesStr lowerMessage (js ''joined using this group's invite link'')
         \<or> includesStr lowerMessage (js ''joined'')
         \<or> includesStr lowerMessage (js ''added'') then Joined
      else if includesStr lowerMessage (js ''removed'')
         \<or> includesStr lowerMessage (js ''left'') then Left
      else if includesStr lowerMessage (js ''created group'')
         \<or> includesStr lowerMessage (js ''group created'') then Created
      else if includesStr lowerMessage (js ''changed the group name'')
         \<or> includesStr lowerMessage (js ''group name changed'') then NameChanged
      else if includesStr lowerMessage (js ''changed group description'')
         \<or> includesStr lowerMessage (js ''group description changed'') then DescriptionChanged
      else if includesStr lowerMessage (js ''changed this group's icon'')
         \<or> includesStr lowerMessage (js ''group icon changed'') then IconChanged
      else if includesStr lowerMessage (js ''messages and calls are end-to-end encrypted'')
         then Encryption
      else if includesStr lowerMessage (js ''ended'')
         \<or> includesStr lowerMessage (js ''deleted'') then Ended
      else Other)"

text \<open>
  A message object.  \<open>idIndex\<close> is the line index that ends the \<open>id\<close> string (its first half
  is the clock reading \<open>Date.now()\<close>); \<open>kind\<close> is the \<open>type\<close> field; \<open>systemType\<close> exists
  on system messages only.  The \<open>timestamp\<close> field is what the host's \<open>Date\<close> makes of the
  \<open>date\<close> and \<open>time\<close> fields and is not part of the record.
\<close>

datatype messageKind = Message | System

record 'b chatMessage =
  idIndex :: nat
  date :: jsstring
  time :: jsstring
  sender :: jsstring
  message :: jsstring
  attachment :: "'b attachment option"
  kind :: messageKind
  systemType :: "systemCategory option"

text \<open>The object built at a header line from the match \<open>dateTimeMatch\<close> of that line.\<close>

definition headerMessage :: "(jsstring \<rightharpoonup> 'b) \<Rightarrow> nat \<Rightarrow> rxmatch \<Rightarrow> 'b chatMessage" where
  "headerMessage files idx m =
     (let content = trim (grp m 3);
          colonIndex = indexOf content 58
      in if colonIndex > 0 then
           (let messageText = trim (drop (nat colonIndex + 1) content);
                att = extractAttachment messageText files;
                finalMessageText =
                  (case att of
                     None \<Rightarrow> messageText
                   | Some a \<Rightarrow> trim (replaceStr messageText (originalText a) []))
            in \<lparr>idIndex = idx, date = grp m 1, time = grp m 2,
                sender = trim (take (nat colonIndex) content),
                message = finalMessageText, attachment = att,
                kind = Message, systemType = None\<rparr>)
         else
           \<lparr>idIndex = idx, date = grp m 1, time = grp m 2,
            sender = js ''System'', message = content, attachment = None,
            kind = System, systemType = Some (getSystemMessageType content)\<rparr>)"

text \<open>
  The body of the \<open>forEach\<close> callback.  The state is the array \<open>chatMessages\<close> and the
  variable \<open>lastMessage\<close> (\<open>None\<close> for \<open>null\<close>).
\<close>

fun lineStep :: "(jsstring \<rightharpoonup> 'b) \<Rightarrow> nat \<times> jsstring
    \<Rightarrow> 'b chatMessage list \<times> 'b chatMessage option
    \<Rightarrow> 'b chatMessage list \<times> 'b chatMessage option" where
  "lineStep files (idx, line) (chatMessages, lastMessage) =
     (case dateTimeMatch line of
        Some m \<Rightarrow>
          ((case lastMessage of None \<Rightarrow> chatMessages | Some l \<Rightarrow> chatMessages @ [l]),
           Some (headerMessage files idx m))
      | None \<Rightarrow>
          (case lastMessage of
             None \<Rightarrow> (chatMessages, None)
           | Some l \<Rightarrow> (chatMessages, Some (l\<lparr>message := message l @ [10] @ line\<rparr>))))"

definition chatLines :: "jsstring \<Rightarrow> jsstring list" where
  "chatLines chatContent =
     map trim (splitNL (if take 1 chatContent = [65279] then drop 1 chatContent else chatContent))"

definition parseChat :: "jsstring \<Rightarrow> (jsstring \<rightharpoonup> 'b) \<Rightarrow> 'b chatMessage list" where
  "parseChat chatContent files =
     (case fold (lineStep files) (List.enumerate 0 (chatLines chatContent)) ([], None) of
        (chatMessages, None) \<Rightarrow> chatMessages
      | (chatMessages, Some l) \<Rightarrow> chatMessages @ [l])"

section \<open>The poll parser (pollParser.js)\<close>

text \<open>
  The indicator strings are taken code unit by code unit from the source file, where the
  symbols are written as the sequences U+00F0 U+0178 U+201C U+0160,
  U+00F0 U+0178 U+2014 U+00B3 U+00EF U+00B8, U+00E2 U+20AC U+00A2, U+00E2 U+0153 U+201C and
  U+00E2 U+02DC U+2018.
\<close>

definition pollIndicators :: "jsstring list" where
  "pollIndicators =
     [js ''POLL:'', js ''Poll:'', js ''poll:'', [240, 376, 8220, 352],
      [240, 376, 8212, 179, 239, 184]]"

definition optionIndicators :: "jsstring list" where
  "optionIndicators =
     [js ''OPTION:'', js ''Option:'', js ''option:'', [226, 8364, 162], [226, 339, 8220],
      [226, 732, 8216]]"

text \<open>
  The patterns of \<open>parsePollMessage\<close>:
  \<^verbatim>\<open>/^(POLL:|Poll:|poll:)\s*/i\<close> for the title,
  \<^verbatim>\<open>/(?:OPTION:|Option:|option:|...)\s*(.+?)\s*\((\d+).*?\)/i\<close> (the three symbols in place of
  the dots) and \<^verbatim>\<open>/^(.+?)\s*\((\d+).*?\)$/\<close> for the options.
\<close>

definition titleRegex :: rx where
  "titleRegex = seqs
     [Bol, Grp 1 (alts [strI (js ''POLL:''), strI (js ''Poll:''), strI (js ''poll:'')]),
      Star True space]"

definition optionRegex :: rx where
  "optionRegex = seqs
     [alts [strI (js ''OPTION:''), strI (js ''Option:''), strI (js ''option:''),
            strI [226, 8364, 162], strI [226, 339, 8220], strI [226, 732, 8216]],
      Star True space, Grp 1 (plus False dot), Star True space, chr 40,
      Grp 2 (plus True digit), Star False dot, chr 41]"

definition simpleOptionRegex :: rx where
  "simpleOptionRegex = seqs
     [Bol, Grp 1 (plus False dot), Star True space, chr 40,
      Grp 2 (plus True digit), Star False dot, chr 41, Eoi]"

text \<open>
  JavaScript numbers are IEEE doubles.  Every number the poll parser handles is a natural
  number that a double holds, or \<open>Infinity\<close>: an \<open>enat\<close>.  \<open>toNumber\<close> is the double nearest
  to a natural number: the number itself below \<open>2^53\<close>; above, the 53 leading bits, rounded
  to nearest with ties to the even mantissa; \<open>Infinity\<close> from \<open>2^1024\<close> on.  \<open>numAdd\<close> is
  the \<open>+\<close> of two such numbers: the double nearest to the exact sum.
\<close>

fun bitLength :: "nat \<Rightarrow> nat" where
  "bitLength n = (if n = 0 then 0 else Suc (bitLength (n div 2)))"

declare bitLength.simps [simp del]

definition toNumber :: "nat \<Rightarrow> enat" where
  "toNumber n =
     (if n < 2 ^ 53 then enat n
      else let e = bitLength n - 53;
               q = n div 2 ^ e;
               r = n mod 2 ^ e;
               q' = (if 2 ^ e < 2 * r \<or> (2 * r = 2 ^ e \<and> odd q) then q + 1 else q)
           in if q' * 2 ^ e < 2 ^ 1024 then enat (q' * 2 ^ e) else \<infinity>)"

definition numAdd :: "enat \<Rightarrow> enat \<Rightarrow> enat" where
  "numAdd a b = (case a + b of enat n \<Rightarrow> toNumber n | \<infinity> \<Rightarrow> \<infinity>)"

text \<open>
  \<open>parseInt(s, 10)\<close> on the capture of \<open>\d+\<close>: the number nearest to the value of the leading
  digits, \<open>None\<close> (NaN) when there is no digit.  (ECMAScript asks for the nearest number up
  to 20 significant digits and lets an engine round from a zero-padded value beyond; the
  nearest number is taken throughout.)
\<close>

definition parseInt :: "jsstring \<Rightarrow> enat option" where
  "parseInt s =
     (let ds = takeWhile isDigit s
      in if ds = [] then None else Some (toNumber (fold (\<lambda>d n. 10 * n + (d - 48)) ds 0)))"

record pollOption =
  optionText :: jsstring
  votes :: enat

record poll =
  title :: jsstring
  options :: "pollOption list"
  totalVotes :: enat
  maxVotes :: enat

text \<open>What one pattern contributes: the option pushed for a match, if its text is not empty.\<close>

definition matchedOption :: "rxmatch \<Rightarrow> pollOption list" where
  "matchedOption m =
     (let txt = trim (grp m 1); voteCount = parseInt (grp m 2)
      in case voteCount of
           None \<Rightarrow> []
         | Some v \<Rightarrow> if txt \<noteq> [] then [\<lparr>optionText = txt, votes = v\<rparr>] else [])"

text \<open>The body of the \<open>for\<close> loop for one line: the options it pushes.\<close>

definition lineOptions :: "jsstring \<Rightarrow> pollOption list" where
  "lineOptions line =
     (case rxExec optionRegex 2 line of
        Some m \<Rightarrow> matchedOption m
      | None \<Rightarrow>
          (case rxExec simpleOptionRegex 2 line of
             Some m \<Rightarrow> matchedOption m
           | None \<Rightarrow> []))"

text \<open>The loop \<open>for (let i = 1; i < lines.length; i++)\<close> with the array \<open>options\<close> as state.\<close>

function optionLoop :: "jsstring list \<Rightarrow> nat \<Rightarrow> pollOption list \<Rightarrow> pollOption list" where
  "optionLoop lines i opts =
     (if i < length lines then optionLoop lines (i + 1) (opts @ lineOptions (lines ! i))
      else opts)"
  by pat_completeness auto
termination
  by (relation "measure (\<lambda>(lines, i, opts). length lines - i)") auto

declare optionLoop.simps [simp del]

definition pollLines :: "jsstring \<Rightarrow> jsstring list" where
  "pollLines msg = filter (\<lambda>line. length line > 0) (map trim (splitNL (trim msg)))"

definition hasPollIndicator :: "jsstring list \<Rightarrow> bool" where
  "hasPollIndicator lines = list_ex (includesStr (lines ! 0)) pollIndicators"

definition hasOptions :: "jsstring list \<Rightarrow> bool" where
  "hasOptions lines = list_ex (\<lambda>line. list_ex (includesStr line) optionIndicators) lines"

definition pollTitle :: "jsstring list \<Rightarrow> jsstring" where
  "pollTitle lines =
     (if list_ex (includesStr (lines ! 0)) [js ''POLL:'', js ''Poll:'', js ''poll:'']
      then trim (rxRemove titleRegex 1 (lines ! 0))
      else if length lines > 1 then lines ! 1
      else [])"

text \<open>
  \<open>options.reduce((sum, option) => sum + option.votes, 0)\<close> and
  \<open>Math.max(...options.map(option => option.votes))\<close>; the former adds doubles, the latter
  is exact and is reached with at least two options, so it always has a first argument.
\<close>

definition sumVotes :: "pollOption list \<Rightarrow> enat" where
  "sumVotes opts = fold (\<lambda>option sum. numAdd sum (votes option)) opts 0"

definition parsePollMessage :: "jsstring \<Rightarrow> poll option" where
  "parsePollMessage msg =
     (if msg = [] then None
      else let lines = pollLines msg in
        if length lines < 3 then None
        else if \<not> hasPollIndicator lines then None
        else if \<not> hasOptions lines then None
        else let ttl = pollTitle lines; opts = optionLoop lines 1 [] in
          case opts of
            o1 # o2 # rest \<Rightarrow>
              (let mx = fold max (map votes (o2 # rest)) (votes o1)
               in Some \<lparr>title = (if ttl = [] then js ''Poll'' else ttl),
                        options = opts,
                        totalVotes = sumVotes opts,
                        maxVotes = (if mx = 0 then 1 else mx)\<rparr>)
          | _ \<Rightarrow> None)"

section \<open>Lines, headers and the messages they make\<close>

text \<open>
  Names for what the statements about \<open>parseChat\<close> speak of: a header line is a line the
  header pattern matches; \<open>appendLines\<close> is the effect of the repeated
  \<open>lastMessage.message += '\n' + line\<close>; the continuation lines of the line at index \<open>i\<close>
  are the lines after it up to the next header line.
\<close>

definition isHeader :: "jsstring \<Rightarrow> bool" where
  "isHeader line = (dateTimeMatch line \<noteq> None)"

definition appendLines :: "'b chatMessage \<Rightarrow> jsstring list \<Rightarrow> 'b chatMessage" where
  "appendLines msg ls = msg\<lparr>message := message msg @ concat (map (\<lambda>l. 10 # l) ls)\<rparr>"

definition continuationLines :: "nat \<Rightarrow> jsstring list \<Rightarrow> jsstring list" where
  "continuationLines i ls = takeWhile (\<lambda>l. \<not> isHeader l) (drop (Suc i) ls)"

text \<open>
  The header lines of an indexed list of lines, each with its match and the lines that
  follow it up to the next header line; \<open>blockMessage\<close> is the message such a block makes
  and \<open>finished\<close> the array \<open>parseChat\<close> returns from the state of its loop.
\<close>

fun blocks :: "(nat \<times> jsstring) list \<Rightarrow> ((nat \<times> rxmatch) \<times> jsstring list) list" where
  "blocks [] = []"
| "blocks ((i, l) # rest) =
     (case dateTimeMatch l of
        None \<Rightarrow> blocks rest
      | Some m \<Rightarrow> ((i, m), takeWhile (\<lambda>l. \<not> isHeader l) (map snd rest)) # blocks rest)"

definition blockMessage :: "(jsstring \<rightharpoonup> 'b) \<Rightarrow> (nat \<times> rxmatch) \<times> jsstring list \<Rightarrow> 'b chatMessage" where
  "blockMessage files b = appendLines (headerMessage files (fst (fst b)) (snd (fst b))) (snd b)"

definition finished :: "'b chatMessage list \<times> 'b chatMessage option \<Rightarrow> 'b chatMessage list" where
  "finished st = (case st of (chatMessages, None) \<Rightarrow> chatMessages | (chatMessages, Some l) \<Rightarrow> chatMessages @ [l])"

section \<open>Notions for reasoning about matches\<close>

text \<open>
  \<open>firstOf\<close> is the way of matching the engine takes (the head of the list of ways), and
  \<open>groupsOf\<close> the capture groups a pattern can write.
\<close>

definition firstOf :: "rx \<Rightarrow> rxstate \<Rightarrow> rxstate option" where
  "firstOf r s = (case rxm r s of [] \<Rightarrow> None | x # _ \<Rightarrow> Some x)"

primrec groupsOf :: "rx \<Rightarrow> nat set" where
  "groupsOf Eps = {}"
| "groupsOf (Chr p) = {}"
| "groupsOf (Seq a b) = groupsOf a \<union> groupsOf b"
| "groupsOf (Alt a b) = groupsOf a \<union> groupsOf b"
| "groupsOf (Star g a) = groupsOf a"
| "groupsOf (Grp k a) = insert k (groupsOf a)"
| "groupsOf Bol = {}"
| "groupsOf Eoi = {}"

section \<open>Evaluation rules\<close>

lemma times_numeral: "times (numeral k) r = Seq r (times (pred_numeral k) r)"
  by (simp add: numeral_eq_Suc)
lemma upto_numeral: "upto (numeral k) r = Alt (Seq r (upto (pred_numeral k) r)) Eps"
  by (simp add: numeral_eq_Suc)
lemma replicate_numeral_Cons: "replicate (numeral k) x = x # replicate (pred_numeral k) x"
  by (simp add: numeral_eq_Suc)
lemma list_update_numeral_Cons: "(x # xs)[numeral k := v] = x # xs[pred_numeral k := v]"
  by (simp add: numeral_eq_Suc)

text \<open>The rewrite rules that run the patterns and the parsers on concrete input.\<close>

lemmas rx_eval = rxm.simps(5) rxExec_def rxAt_def rxRemove_def js_def rep_def chr_def chrI_def
  digit_def space_def dot_def plus_def opt_def isDigit_def isWhiteSpace_def isLineTerminator_def
  canonicalize_def times_numeral upto_numeral replicate_numeral_Cons list_update_numeral_Cons
  grp_def trim_def startsWith_def toLowerCase_def Let_def

lemmas header_eval = dateTimeMatch_def dateTimeRx_def isAPM_def

lemmas message_eval = header_eval headerMessage_def extractAttachment_def attachedMatch_def
  fileAttachedMatch_def directFileMatch_def getFileType_def extension_def typeOfExtension_def
  imageTypes_def videoTypes_def audioTypes_def documentTypes_def getSystemMessageType_def
  attachedPattern_def fileAttachedPattern_def directFilePattern_def

lemmas chat_eval = parseChat_def chatLines_def message_eval

lemmas poll_eval = parsePollMessage_def pollLines_def hasPollIndicator_def hasOptions_def
  pollTitle_def sumVotes_def lineOptions_def matchedOption_def parseInt_def optionRegex_def
  simpleOptionRegex_def titleRegex_def pollIndicators_def optionIndicators_def
  optionLoop.simps toNumber_def numAdd_def bitLength.simps numeral_eq_enat zero_enat_def
  one_enat_def

section \<open>Properties of the poll parser\<close>

lemma bitLength_2_53: "bitLength (2 ^ 53) = 54"
  by (simp add: bitLength.simps)

lemma toNumber_exact: "n \<le> 2 ^ 53 \<Longrightarrow> toNumber n = enat n"
proof (cases "n < 2 ^ 53")
  case True
  then show ?thesis by (simp add: toNumber_def)
next
  case False
  assume "n \<le> 2 ^ 53"
  with False have n: "n = 2 ^ 53" by simp
  show ?thesis
    unfolding n toNumber_def bitLength_2_53 by (simp add: Let_def)
qed

lemma sumVotes_acc:
  "enat a + sum_list vs \<le> enat (2 ^ 53) \<Longrightarrow>
     fold (\<lambda>v sum. numAdd sum v) vs (enat a) = enat a + sum_list vs"
proof (induction vs arbitrary: a)
  case Nil
  show ?case by simp
next
  case (Cons v vs)
  from Cons.prems have le: "enat a + v + sum_list vs \<le> enat (2 ^ 53)"
    by (simp add: add.assoc)
  then have "enat a + v \<le> enat (2 ^ 53)"
    by (meson dual_order.trans le_iff_add)
  then obtain b where b: "enat a + v = enat b" and b53: "b \<le> 2 ^ 53"
    by (cases "enat a + v") auto
  have "numAdd (enat a) v = enat b"
    by (simp add: numAdd_def b toNumber_exact [OF b53])
  moreover have "fold (\<lambda>v sum. numAdd sum v) vs (enat b) = enat b + sum_list vs"
    using le by (intro Cons.IH) (simp add: b)
  ultimately show ?case
    by (simp add: b [symmetric] add.assoc)
qed

lemma sumVotes_fold: "sumVotes opts = fold (\<lambda>v sum. numAdd sum v) (map votes opts) 0"
  by (simp add: sumVotes_def fold_map comp_def)

lemma sumVotes_sum_list:
  "sum_list (map votes opts) \<le> enat (2 ^ 53) \<Longrightarrow> sumVotes opts = sum_list (map votes opts)"
  using sumVotes_acc [of 0 "map votes opts"] by (simp add: sumVotes_fold enat_0)

lemma parsePollMessage_SomeD:
  assumes "parsePollMessage msg = Some p"
  shows "\<exists>o1 o2 rest. optionLoop (pollLines msg) 1 [] = o1 # o2 # rest \<and>
           p = \<lparr>title = (if pollTitle (pollLines msg) = [] then js ''Poll'' else pollTitle (pollLines msg)),
                options = o1 # o2 # rest,
                totalVotes = sumVotes (o1 # o2 # rest),
                maxVotes = (if fold max (map votes (o2 # rest)) (votes o1) = 0 then 1
                            else fold max (map votes (o2 # rest)) (votes o1))\<rparr>"
proof -
  let ?opts = "optionLoop (pollLines msg) 1 []"
  let ?ttl = "pollTitle (pollLines msg)"
  have c: "(case ?opts of
              o1 # o2 # rest \<Rightarrow>
                (let mx = fold max (map votes (o2 # rest)) (votes o1)
                 in Some \<lparr>title = (if ?ttl = [] then js ''Poll'' else ?ttl), options = ?opts,
                          totalVotes = sumVotes ?opts, maxVotes = (if mx = 0 then 1 else mx)\<rparr>)
            | _ \<Rightarrow> None) = Some p"
    using assms unfolding parsePollMessage_def Let_def by (simp split: if_splits)
  then obtain o1 o2 rest where o: "?opts = o1 # o2 # rest"
    by (cases ?opts; cases "tl ?opts") auto
  have "p = \<lparr>title = (if ?ttl = [] then js ''Poll'' else ?ttl),
                options = o1 # o2 # rest,
                totalVotes = sumVotes (o1 # o2 # rest),
                maxVotes = (if fold max (map votes (o2 # rest)) (votes o1) = 0 then 1
                            else fold max (map votes (o2 # rest)) (votes o1))\<rparr>"
    using c unfolding o by (auto simp: Let_def)
  with o show ?thesis by blast
qed



text \<open>
  Claim C9, as the code has it.  In every poll that \<open>parsePollMessage\<close> returns,
  \<open>totalVotes\<close> is the options' vote counts added from left to right as JavaScript numbers
  (every partial sum rounded to the nearest double); it is their exact sum whenever that sum
  is at most \<open>2^53\<close>.  \<open>maxVotes\<close> is the largest vote count, raised to 1 when it is 0, so
  \<open>maxVotes\<close> is never 0.  The body \<open>POLL: Lunch?\<close>, \<open>OPTION: Pizza (3 votes)\<close>,
  \<open>OPTION: Sushi (1 vote)\<close> gives the title \<open>Lunch?\<close>, the options Pizza with 3 and Sushi
  with 1, \<open>totalVotes\<close> 4 and \<open>maxVotes\<close> 3.
\<close>
theorem poll_totalVotes_rounded_maxVotes:
  "(\<forall>msg p. parsePollMessage msg = Some p \<longrightarrow>
      totalVotes p = fold (\<lambda>v sum. numAdd sum v) (map votes (options p)) 0 \<and>
      (sum_list (map votes (options p)) \<le> enat (2 ^ 53) \<longrightarrow>
         totalVotes p = sum_list (map votes (options p))) \<and>
      maxVotes p = max 1 (Max (set (map votes (options p)))) \<and>
      maxVotes p \<noteq> 0) \<and>
   parsePollMessage (js ''POLL: Lunch?\<newline>OPTION: Pizza (3 votes)\<newline>OPTION: Sushi (1 vote)'') =
     Some \<lparr>title = js ''Lunch?'',
           options = [\<lparr>optionText = js ''Pizza'', votes = 3\<rparr>, \<lparr>optionText = js ''Sushi'', votes = 1\<rparr>],
           totalVotes = 4, maxVotes = 3\<rparr>"
proof (intro conjI allI impI)
  fix msg p
  assume "parsePollMessage msg = Some p"
  then obtain o1 o2 rest where
    p: "p = \<lparr>title = (if pollTitle (pollLines msg) = [] then js ''Poll'' else pollTitle (pollLines msg)),
                options = o1 # o2 # rest,
                totalVotes = sumVotes (o1 # o2 # rest),
                maxVotes = (if fold max (map votes (o2 # rest)) (votes o1) = 0 then 1
                            else fold max (map votes (o2 # rest)) (votes o1))\<rparr>"
    using parsePollMessage_SomeD by blast
  have opts: "options p = o1 # o2 # rest" and
    tot: "totalVotes p = sumVotes (options p)" and
    mx: "maxVotes p = (let mx = fold max (map votes (o2 # rest)) (votes o1) in if mx = 0 then 1 else mx)"
    by (simp_all add: p Let_def)
  show "totalVotes p = fold (\<lambda>v sum. numAdd sum v) (map votes (options p)) 0"
    by (simp only: tot sumVotes_fold)
  {
    assume "sum_list (map votes (options p)) \<le> enat (2 ^ 53)"
    then show "totalVotes p = sum_list (map votes (options p))"
      by (simp only: tot sumVotes_sum_list)
  }
  have "fold max (map votes (o2 # rest)) (votes o1) = Max (set (map votes (options p)))"
    by (simp only: opts list.map Max.set_eq_fold)
  with mx show m1: "maxVotes p = max 1 (Max (set (map votes (options p))))"
    by (auto simp: Let_def max_def not_le iless_eSuc0 [unfolded one_eSuc [symmetric]])
  with mx show "maxVotes p \<noteq> 0"
    by (simp add: Let_def)
next
  show "parsePollMessage (js ''POLL: Lunch?\<newline>OPTION: Pizza (3 votes)\<newline>OPTION: Sushi (1 vote)'') =
     Some \<lparr>title = js ''Lunch?'',
           options = [\<lparr>optionText = js ''Pizza'', votes = 3\<rparr>, \<lparr>optionText = js ''Sushi'', votes = 1\<rparr>],
           totalVotes = 4, maxVotes = 3\<rparr>"
    by (simp add: rx_eval poll_eval)
qed

theorem poll_totalVotes_rounded_maxVotes_witness:
  "parsePollMessage (js ''POLL: Lunch?\<newline>OPTION: Pizza (0 votes)\<newline>OPTION: Sushi (0)'') =
     Some \<lparr>title = js ''Lunch?'',
           options = [\<lparr>optionText = js ''Pizza'', votes = 0\<rparr>, \<lparr>optionText = js ''Sushi'', votes = 0\<rparr>],
           totalVotes = 0, maxVotes = 1\<rparr> \<and>
   sum_list (map votes [\<lparr>optionText = js ''Pizza'', votes = 0\<rparr>, \<lparr>optionText = js ''Sushi'', votes = 0\<rparr>])
     \<le> enat (2 ^ 53) \<and>
   (0 :: enat) = sum_list (map votes [\<lparr>optionText = js ''Pizza'', votes = 0\<rparr>, \<lparr>optionText = js ''Sushi'', votes = 0\<rparr>]) \<and>
   (1 :: enat) = max 1 (Max (set (map votes [\<lparr>optionText = js ''Pizza'', votes = 0\<rparr>, \<lparr>optionText = js ''Sushi'', votes = 0\<rparr>]))) \<and>
   (1 :: enat) \<noteq> 0"
proof -
  let ?p = "\<lparr>title = js ''Lunch?'',
           options = [\<lparr>optionText = js ''Pizza'', votes = 0\<rparr>, \<lparr>optionText = js ''Sushi'', votes = 0\<rparr>],
           totalVotes = 0, maxVotes = 1\<rparr>"
  have ev: "parsePollMessage (js ''POLL: Lunch?\<newline>OPTION: Pizza (0 votes)\<newline>OPTION: Sushi (0)'') = Some ?p"
    by (simp add: rx_eval poll_eval)
  have le: "sum_list (map votes (options ?p)) \<le> enat (2 ^ 53)"
    by (simp add: zero_enat_def)
  note w = poll_totalVotes_rounded_maxVotes [THEN conjunct1, rule_format, OF ev]
  from w [THEN conjunct2, THEN conjunct1, rule_format, OF le] w [THEN conjunct2, THEN conjunct2] ev le
  show ?thesis by simp
qed

theorem poll_totalVotes_counterexample:
  "parsePollMessage (js ''POLL: Big?\<newline>OPTION: A (9007199254740993)\<newline>OPTION: B (1)'') =
     Some \<lparr>title = js ''Big?'',
           options = [\<lparr>optionText = js ''A'', votes = 9007199254740992\<rparr>,
                      \<lparr>optionText = js ''B'', votes = 1\<rparr>],
           totalVotes = 9007199254740992, maxVotes = 9007199254740992\<rparr> \<and>
   sum_list (map votes [\<lparr>optionText = js ''A'', votes = 9007199254740992\<rparr>,
                         \<lparr>optionText = js ''B'', votes = 1\<rparr>]) = 9007199254740993 \<and>
   (9007199254740992 :: enat) \<noteq> 9007199254740993"
  by (simp add: rx_eval poll_eval)

text \<open>
  Claim C8.  \<open>parsePollMessage\<close> returns none whenever the text has fewer than 3 trimmed
  non-empty lines, and whenever the loop extracts fewer than 2 options, also when the first
  line holds a poll indicator and option indicators are present.
\<close>
theorem poll_none_when_few_lines_or_options:
  "(\<forall>msg. length (pollLines msg) < 3 \<longrightarrow> parsePollMessage msg = None) \<and>
   (\<forall>msg. length (optionLoop (pollLines msg) 1 []) < 2 \<longrightarrow> parsePollMessage msg = None)"
proof (intro conjI allI impI)
  fix msg
  assume "length (pollLines msg) < 3"
  then show "parsePollMessage msg = None"
    by (simp add: parsePollMessage_def Let_def)
next
  fix msg
  assume few: "length (optionLoop (pollLines msg) 1 []) < 2"
  show "parsePollMessage msg = None"
  proof (cases "parsePollMessage msg")
    case None
    then show ?thesis .
  next
    case (Some p)
    then obtain o1 o2 rest where "optionLoop (pollLines msg) 1 [] = o1 # o2 # rest"
      using parsePollMessage_SomeD by blast
    with few show ?thesis by simp
  qed
qed

theorem poll_none_when_few_lines_or_options_witness:
  "length (pollLines (js ''POLL: Lunch?\<newline>OPTION: Pizza (3 votes)'')) = 2 \<and>
   parsePollMessage (js ''POLL: Lunch?\<newline>OPTION: Pizza (3 votes)'') = None \<and>
   length (pollLines (js ''POLL: Lunch?\<newline>OPTION: Pizza (3 votes)\<newline>OPTION: Sushi'')) = 3 \<and>
   hasPollIndicator (pollLines (js ''POLL: Lunch?\<newline>OPTION: Pizza (3 votes)\<newline>OPTION: Sushi'')) \<and>
   hasOptions (pollLines (js ''POLL: Lunch?\<newline>OPTION: Pizza (3 votes)\<newline>OPTION: Sushi'')) \<and>
   optionLoop (pollLines (js ''POLL: Lunch?\<newline>OPTION: Pizza (3 votes)\<newline>OPTION: Sushi'')) 1 [] =
     [\<lparr>optionText = js ''Pizza'', votes = 3\<rparr>] \<and>
   parsePollMessage (js ''POLL: Lunch?\<newline>OPTION: Pizza (3 votes)\<newline>OPTION: Sushi'') = None"
proof -
  let ?a = "js ''POLL: Lunch?\<newline>OPTION: Pizza (3 votes)''"
  let ?b = "js ''POLL: Lunch?\<newline>OPTION: Pizza (3 votes)\<newline>OPTION: Sushi''"
  have la: "length (pollLines ?a) = 2"
    by (simp add: rx_eval poll_eval)
  have lb: "pollLines ?b = [js ''POLL: Lunch?'', js ''OPTION: Pizza (3 votes)'', js ''OPTION: Sushi'']"
    by (simp add: rx_eval poll_eval)
  have ib: "hasPollIndicator (pollLines ?b)" "hasOptions (pollLines ?b)"
    unfolding lb by (simp_all add: rx_eval poll_eval)
  have ob: "optionLoop (pollLines ?b) 1 [] = [\<lparr>optionText = js ''Pizza'', votes = 3\<rparr>]"
    unfolding lb by (simp add: rx_eval poll_eval)
  have na: "parsePollMessage ?a = None"
    using poll_none_when_few_lines_or_options [THEN conjunct1, rule_format, of ?a] la by simp
  have nb: "parsePollMessage ?b = None"
    using poll_none_when_few_lines_or_options [THEN conjunct2, rule_format, of ?b] ob by simp
  show ?thesis
    using la na ib ob nb by (simp add: lb)
qed





section \<open>Properties of the chat parser\<close>

lemma appendLines_Nil: "appendLines msg [] = msg"
  by (simp add: appendLines_def)

lemma appendLines_Cons:
  "appendLines (msg\<lparr>message := message msg @ [10] @ l\<rparr>) ls = appendLines msg (l # ls)"
  by (simp add: appendLines_def)

lemma finished_fold:
  "finished (fold (lineStep files) ls (msgs, lm)) =
     msgs @ (case lm of None \<Rightarrow> []
             | Some l \<Rightarrow> [appendLines l (takeWhile (\<lambda>l. \<not> isHeader l) (map snd ls))])
          @ map (blockMessage files) (blocks ls)"
proof (induction ls arbitrary: msgs lm)
  case Nil
  show ?case
    by (cases lm) (simp_all add: finished_def appendLines_Nil)
next
  case (Cons p ls)
  obtain i l where p: "p = (i, l)" by (cases p)
  show ?case
  proof (cases "dateTimeMatch l")
    case (Some m)
    then have h: "isHeader l" by (simp add: isHeader_def)
    show ?thesis
      using Some h
      by (cases lm) (simp_all add: p Cons.IH blockMessage_def appendLines_Nil)
  next
    case None
    then have h: "\<not> isHeader l" by (simp add: isHeader_def)
    show ?thesis
    proof (cases lm)
      case None
      with \<open>dateTimeMatch l = None\<close> show ?thesis by (simp add: p Cons.IH)
    next
      case (Some l0)
      with \<open>dateTimeMatch l = None\<close> h show ?thesis
        by (simp add: p Cons.IH appendLines_Cons [simplified])
    qed
  qed
qed

lemma parseChat_blocks:
  "parseChat text files = map (blockMessage files) (blocks (List.enumerate 0 (chatLines text)))"
proof -
  have "parseChat text files =
          finished (fold (lineStep files) (List.enumerate 0 (chatLines text)) ([], None))"
    by (simp add: parseChat_def finished_def)
  then show ?thesis by (simp add: finished_fold)
qed

lemma idIndex_blockMessage: "idIndex (blockMessage files ((i, m), cs)) = i"
  by (simp add: blockMessage_def appendLines_def headerMessage_def Let_def)

lemma blocks_indices:
  "map (\<lambda>b. fst (fst b)) (blocks ls) = map fst (filter (\<lambda>(i, line). isHeader line) ls)"
proof (induction ls)
  case Nil
  show ?case by simp
next
  case (Cons p ls)
  obtain i l where p: "p = (i, l)" by (cases p)
  show ?case
    using Cons.IH by (cases "dateTimeMatch l") (simp_all add: p isHeader_def)
qed

lemma filter_enumerate_length:
  "length (filter (\<lambda>(i, line). P line) (List.enumerate n ls)) = length (filter P ls)"
  by (induction ls arbitrary: n) simp_all

text \<open>
  Claim C1.  For every input text \<open>parseChat\<close> emits exactly one message per line that
  matches the header pattern, in the order of those lines: the line indices kept in the
  messages' ids are the indices of the header lines, in input order, and the number of
  messages is the number of header lines.
\<close>
theorem parseChat_one_message_per_header:
  "map idIndex (parseChat text files) =
     map fst (filter (\<lambda>(i, line). isHeader line) (List.enumerate 0 (chatLines text))) \<and>
   length (parseChat text files) = length (filter isHeader (chatLines text))"
proof
  have "map idIndex (parseChat text files) =
          map (\<lambda>b. fst (fst b)) (blocks (List.enumerate 0 (chatLines text)))"
    unfolding parseChat_blocks map_map
    by (rule map_cong [OF refl]) (auto simp: idIndex_blockMessage)
  then show ix: "map idIndex (parseChat text files) =
     map fst (filter (\<lambda>(i, line). isHeader line) (List.enumerate 0 (chatLines text)))"
    by (simp only: blocks_indices)
  have "length (parseChat text files) = length (map idIndex (parseChat text files))"
    by simp
  also have "\<dots> = length (filter isHeader (chatLines text))"
    unfolding ix by (simp add: filter_enumerate_length)
  finally show "length (parseChat text files) = length (filter isHeader (chatLines text))" .
qed

theorem parseChat_one_message_per_header_witness:
  "map idIndex (parseChat (js ''intro\<newline>1/2/24, 10:30 AM - Alice: Hello\<newline>World\<newline>1/2/24, 10:31 AM - Bob left'')
      (Map.empty :: jsstring \<rightharpoonup> unit)) = [1, 3] \<and>
   map (\<lambda>(i, line). (i, isHeader line))
     (List.enumerate 0 (chatLines (js ''intro\<newline>1/2/24, 10:30 AM - Alice: Hello\<newline>World\<newline>1/2/24, 10:31 AM - Bob left''))) =
     [(0, False), (1, True), (2, False), (3, True)]"
proof -
  let ?t = "js ''intro\<newline>1/2/24, 10:30 AM - Alice: Hello\<newline>World\<newline>1/2/24, 10:31 AM - Bob left''"
  have l: "chatLines ?t = [js ''intro'', js ''1/2/24, 10:30 AM - Alice: Hello'', js ''World'', js ''1/2/24, 10:31 AM - Bob left'']"
    by (simp add: chatLines_def js_def trim_def isWhiteSpace_def)
  have h: "\<not> isHeader (js ''intro'')" "isHeader (js ''1/2/24, 10:30 AM - Alice: Hello'')"
      "\<not> isHeader (js ''World'')" "isHeader (js ''1/2/24, 10:31 AM - Bob left'')"
    by (simp_all add: isHeader_def header_eval rx_eval)
  have "map idIndex (parseChat ?t (Map.empty :: jsstring \<rightharpoonup> unit)) = [1, 3]"
    using parseChat_one_message_per_header [of ?t "Map.empty :: jsstring \<rightharpoonup> unit", THEN conjunct1]
    unfolding l by (simp add: h)
  then show ?thesis
    unfolding l by (simp add: h)
qed

lemma map_snd_enumerate: "map snd (List.enumerate n ls) = ls"
  by (induction ls arbitrary: n) simp_all

lemma blocks_header:
  "i < length ls \<Longrightarrow> dateTimeMatch (ls ! i) = Some m \<Longrightarrow>
     ((n + i, m), continuationLines i ls) \<in> set (blocks (List.enumerate n ls))"
proof (induction ls arbitrary: i n)
  case Nil
  then show ?case by simp
next
  case (Cons l ls)
  show ?case
  proof (cases i)
    case 0
    with Cons.prems show ?thesis
      by (simp add: continuationLines_def map_snd_enumerate)
  next
    case (Suc j)
    with Cons.prems have "((Suc n + j, m), continuationLines j ls) \<in> set (blocks (List.enumerate (Suc n) ls))"
      by (intro Cons.IH) simp_all
    then show ?thesis
      by (cases "dateTimeMatch l") (simp_all add: Suc continuationLines_def)
  qed
qed

lemma header_message_in_output:
  assumes "i < length (chatLines text)" and "dateTimeMatch (chatLines text ! i) = Some m"
  shows "blockMessage files ((i, m), continuationLines i (chatLines text)) \<in> set (parseChat text files)"
  using blocks_header [OF assms, of 0] unfolding parseChat_blocks by (auto intro: image_eqI)

lemma blocks_no_header:
  "list_all (\<lambda>p. dateTimeMatch (snd p) = None) ls \<Longrightarrow> blocks ls = []"
  by (induction ls) auto

lemma takeWhile_all: "list_all P xs \<Longrightarrow> takeWhile P xs = xs"
  by (induction xs) auto

lemma filter_distinct_key:
  "distinct (map f xs) \<Longrightarrow> x \<in> set xs \<Longrightarrow> filter (\<lambda>y. f y = f x) xs = [x]"
proof (induction xs)
  case Nil
  then show ?case by simp
next
  case (Cons a xs)
  show ?case
  proof (cases "a = x")
    case True
    have "filter (\<lambda>y. f y = f x) xs = []"
      using Cons.prems(1) True by (force simp: filter_empty_conv image_iff)
    with True show ?thesis by simp
  next
    case False
    with Cons.prems have "x \<in> set xs" "f a \<noteq> f x"
      by auto
    with Cons show ?thesis by simp
  qed
qed

lemma map_fst_enumerate: "map fst (List.enumerate n ls) = [n..<n + length ls]"
  by (simp add: enumerate_eq_zip)

lemma blocks_distinct: "distinct (map (\<lambda>b. fst (fst b)) (blocks (List.enumerate n ls)))"
  unfolding blocks_indices
  by (rule distinct_map_filter) (simp add: map_fst_enumerate)

lemma message_of_header:
  assumes "i < length (chatLines text)" and "dateTimeMatch (chatLines text ! i) = Some m"
  shows "filter (\<lambda>x. idIndex x = i) (parseChat text files) =
           [blockMessage files ((i, m), continuationLines i (chatLines text))]"
proof -
  let ?bs = "blocks (List.enumerate 0 (chatLines text))"
  let ?b = "((i, m), continuationLines i (chatLines text))"
  have mem: "?b \<in> set ?bs"
    using blocks_header [OF assms, of 0] by simp
  have "filter (\<lambda>b. fst (fst b) = fst (fst ?b)) ?bs = [?b]"
    using blocks_distinct mem by (rule filter_distinct_key)
  then have f: "filter (\<lambda>b. fst (fst b) = i) ?bs = [?b]"
    by simp
  have "filter (\<lambda>x. idIndex x = i) (parseChat text files) =
          map (blockMessage files) (filter (\<lambda>b. fst (fst b) = i) ?bs)"
    unfolding parseChat_blocks filter_map
    by (simp add: comp_def idIndex_blockMessage [of files "fst (fst b)" "snd (fst b)" "snd b" for b, simplified])
  then show ?thesis
    by (simp add: f)
qed

lemma continuationLines_split:
  assumes "list_all (\<lambda>c. dateTimeMatch c = None) cs"
    and "post = [] \<or> dateTimeMatch (hd post) \<noteq> None"
  shows "continuationLines (length pre) (pre @ h # cs @ post) = cs"
proof -
  have "takeWhile (\<lambda>l. \<not> isHeader l) (cs @ post) = cs"
  proof (cases post)
    case Nil
    with assms(1) show ?thesis
      by (simp add: takeWhile_all isHeader_def)
  next
    case (Cons p ps)
    with assms(2) have "isHeader p" by (simp add: isHeader_def)
    moreover have "\<forall>c \<in> set cs. \<not> isHeader c"
      using assms(1) by (simp add: list_all_iff isHeader_def)
    ultimately show ?thesis
      by (simp add: Cons takeWhile_append2 [of cs] takeWhile_tail)
  qed
  then show ?thesis
    by (simp add: continuationLines_def)
qed

text \<open>
  Claim C3.  A header line followed by \<open>N\<close> lines that are not headers, up to the next
  header line or the end of the input, produces exactly one message: the output holds one
  message made at that line, and its body is the body made from the header line followed by
  the \<open>N\<close> lines in their order, each after a line feed.  This holds wherever the header line
  stands in the input.  Parsing the header \<open>1/2/24, 10:30 AM - Alice: Hello\<close> followed by the
  line \<open>World\<close> gives one authored message with sender \<open>Alice\<close> and the body \<open>Hello\<close>, line
  feed, \<open>World\<close>.
\<close>
theorem continuation_lines_joined:
  "(\<forall>text (files :: jsstring \<rightharpoonup> 'b) pre h cs post m.
      chatLines text = pre @ h # cs @ post \<and> dateTimeMatch h = Some m \<and>
      list_all (\<lambda>c. dateTimeMatch c = None) cs \<and>
      (post = [] \<or> dateTimeMatch (hd post) \<noteq> None) \<longrightarrow>
      filter (\<lambda>msg. idIndex msg = length pre) (parseChat text files) =
        [(headerMessage files (length pre) m)
           \<lparr>message := message (headerMessage files (length pre) m) @
              concat (map (\<lambda>c. 10 # c) cs)\<rparr>]) \<and>
   (\<forall>files :: jsstring \<rightharpoonup> 'b.
      parseChat (js ''1/2/24, 10:30 AM - Alice: Hello\<newline>World'') files =
      [\<lparr>idIndex = 0, date = js ''1/2/24'', time = js ''10:30 AM'', sender = js ''Alice'',
        message = js ''Hello\<newline>World'', attachment = None, kind = Message,
        systemType = None\<rparr>])"
proof (intro conjI allI impI)
  fix chatContent pre h cs post m and files :: "jsstring \<rightharpoonup> 'b"
  assume a: "chatLines chatContent = pre @ h # cs @ post \<and> dateTimeMatch h = Some m \<and>
      list_all (\<lambda>c. dateTimeMatch c = None) cs \<and>
      (post = [] \<or> dateTimeMatch (hd post) \<noteq> None)"
  then have i: "length pre < length (chatLines chatContent)"
    and h: "dateTimeMatch (chatLines chatContent ! length pre) = Some m"
    by simp_all
  have c: "continuationLines (length pre) (chatLines chatContent) = cs"
    using a continuationLines_split [of cs post pre h] by simp
  show "filter (\<lambda>msg. idIndex msg = length pre) (parseChat chatContent files) =
        [(headerMessage files (length pre) m)
           \<lparr>message := message (headerMessage files (length pre) m) @
              concat (map (\<lambda>c. 10 # c) cs)\<rparr>]"
    unfolding message_of_header [OF i h] c
    by (simp add: blockMessage_def appendLines_def)
next
  fix files :: "jsstring \<rightharpoonup> 'b"
  show "parseChat (js ''1/2/24, 10:30 AM - Alice: Hello\<newline>World'') files =
      [\<lparr>idIndex = 0, date = js ''1/2/24'', time = js ''10:30 AM'', sender = js ''Alice'',
        message = js ''Hello\<newline>World'', attachment = None, kind = Message,
        systemType = None\<rparr>]"
    by (simp add: rx_eval chat_eval)
qed

theorem continuation_lines_joined_witness:
  "chatLines (js ''intro\<newline>1/2/24, 10:30 AM - Alice: Hello\<newline>\<newline>  World  \<newline>1/2/24, 10:31 AM - Bob: Hi\<newline>there'') =
     [js ''intro''] @ js ''1/2/24, 10:30 AM - Alice: Hello'' # [[], js ''World''] @
     [js ''1/2/24, 10:31 AM - Bob: Hi'', js ''there''] \<and>
   list_all (\<lambda>c. dateTimeMatch c = None) [[], js ''World'', js ''there''] \<and>
   dateTimeMatch (js ''1/2/24, 10:31 AM - Bob: Hi'') \<noteq> None \<and>
   filter (\<lambda>msg. idIndex msg = 1)
     (parseChat (js ''intro\<newline>1/2/24, 10:30 AM - Alice: Hello\<newline>\<newline>  World  \<newline>1/2/24, 10:31 AM - Bob: Hi\<newline>there'')
        (Map.empty :: jsstring \<rightharpoonup> unit)) =
     [\<lparr>idIndex = 1, date = js ''1/2/24'', time = js ''10:30 AM'', sender = js ''Alice'',
       message = js ''Hello\<newline>\<newline>World'', attachment = None, kind = Message,
       systemType = None\<rparr>] \<and>
   filter (\<lambda>msg. idIndex msg = 4)
     (parseChat (js ''intro\<newline>1/2/24, 10:30 AM - Alice: Hello\<newline>\<newline>  World  \<newline>1/2/24, 10:31 AM - Bob: Hi\<newline>there'')
        (Map.empty :: jsstring \<rightharpoonup> unit)) =
     [\<lparr>idIndex = 4, date = js ''1/2/24'', time = js ''10:31 AM'', sender = js ''Bob'',
       message = js ''Hi\<newline>there'', attachment = None, kind = Message,
       systemType = None\<rparr>]"
proof -
  let ?t = "js ''intro\<newline>1/2/24, 10:30 AM - Alice: Hello\<newline>\<newline>  World  \<newline>1/2/24, 10:31 AM - Bob: Hi\<newline>there''"
  let ?h1 = "js ''1/2/24, 10:30 AM - Alice: Hello''"
  let ?h2 = "js ''1/2/24, 10:31 AM - Bob: Hi''"
  let ?m1 = "\<lparr>index = 0, groups = [Some ?h1, Some (js ''1/2/24''), Some (js ''10:30 AM''),
             Some (js ''Alice: Hello'')]\<rparr>"
  let ?m2 = "\<lparr>index = 0, groups = [Some ?h2, Some (js ''1/2/24''), Some (js ''10:31 AM''),
             Some (js ''Bob: Hi'')]\<rparr>"
  let ?f = "Map.empty :: jsstring \<rightharpoonup> unit"
  have l: "chatLines ?t = [js ''intro''] @ ?h1 # [[], js ''World''] @ [?h2, js ''there'']"
    by (simp add: chatLines_def js_def trim_def isWhiteSpace_def)
  have l2: "chatLines ?t = [js ''intro'', ?h1, [], js ''World''] @ ?h2 # [js ''there''] @ []"
    unfolding l by simp
  have m1: "dateTimeMatch ?h1 = Some ?m1" and m2: "dateTimeMatch ?h2 = Some ?m2"
    by (simp_all add: header_eval rx_eval)
  have n: "list_all (\<lambda>c. dateTimeMatch c = None) [[], js ''World'', js ''there'']"
    by (simp add: header_eval rx_eval)
  have w1: "filter (\<lambda>msg. idIndex msg = length [js ''intro'']) (parseChat ?t ?f) =
      [(headerMessage ?f (length [js ''intro'']) ?m1)
         \<lparr>message := message (headerMessage ?f (length [js ''intro'']) ?m1) @
            concat (map (\<lambda>c. 10 # c) [[], js ''World''])\<rparr>]"
    using continuation_lines_joined [where 'b = unit, THEN conjunct1, rule_format,
        of ?t "[js ''intro'']" ?h1 "[[], js ''World'']" "[?h2, js ''there'']" ?m1 ?f] l m1 m2 n
    by simp
  have w2: "filter (\<lambda>msg. idIndex msg = length [js ''intro'', ?h1, [], js ''World''])
        (parseChat ?t ?f) =
      [(headerMessage ?f (length [js ''intro'', ?h1, [], js ''World'']) ?m2)
         \<lparr>message := message (headerMessage ?f (length [js ''intro'', ?h1, [], js ''World'']) ?m2) @
            concat (map (\<lambda>c. 10 # c) [js ''there''])\<rparr>]"
    using continuation_lines_joined [where 'b = unit, THEN conjunct1, rule_format,
        of ?t "[js ''intro'', ?h1, [], js ''World'']" ?h2 "[js ''there'']" "[]" ?m2 ?f] l2 m2 n
    by simp
  have len4: "length [js ''intro'', ?h1, [], js ''World''] = 4"
    by simp
  have e1: "filter (\<lambda>msg. idIndex msg = 1) (parseChat ?t ?f) =
     [\<lparr>idIndex = 1, date = js ''1/2/24'', time = js ''10:30 AM'', sender = js ''Alice'',
       message = js ''Hello\<newline>\<newline>World'', attachment = None, kind = Message,
       systemType = None\<rparr>]"
    using w1 by (simp add: rx_eval message_eval)
  have e2: "filter (\<lambda>msg. idIndex msg = 4) (parseChat ?t ?f) =
     [\<lparr>idIndex = 4, date = js ''1/2/24'', time = js ''10:31 AM'', sender = js ''Bob'',
       message = js ''Hi\<newline>there'', attachment = None, kind = Message,
       systemType = None\<rparr>]"
    using w2 unfolding len4 by (simp add: rx_eval message_eval)
  show ?thesis
    using l n m2 e1 e2 by simp
qed

text \<open>
  Claim C4.  For every header line the output holds exactly one message made at that line.
  When the first colon of the trimmed rest is at an index above 0 the message is authored:
  its sender is the trimmed text before that colon and its body is made from the trimmed
  text after that colon (with a resolved attachment marker removed), followed by the
  continuation lines.  Otherwise (no colon, or the first colon at index 0) it is a system
  message: the sender is \<open>System\<close>, the body is the whole rest followed by the continuation
  lines, and the category is that of the rest.  The line
  \<open>1/2/24, 10:31 AM - Bob joined using this group's invite link\<close> gives one system message
  of category joined; \<open>1/2/24, 10:30 AM - Alice: see: this\<close> is split at its first colon;
  \<open>1/2/24, 10:31 AM - :) hi: there\<close>, whose first colon is at index 0, is a system message.
\<close>
theorem sender_split_at_first_colon:
  "(\<forall>text (files :: jsstring \<rightharpoonup> 'b) i m.
      i < length (chatLines text) \<and> dateTimeMatch (chatLines text ! i) = Some m \<longrightarrow>
      (\<exists>msg. filter (\<lambda>x. idIndex x = i) (parseChat text files) = [msg] \<and>
         (if 0 < indexOf (trim (grp m 3)) 58
          then kind msg = Message \<and> systemType msg = None \<and>
               sender msg = trim (take (nat (indexOf (trim (grp m 3)) 58)) (trim (grp m 3))) \<and>
               message msg =
                 (case extractAttachment
                         (trim (drop (nat (indexOf (trim (grp m 3)) 58) + 1) (trim (grp m 3))))
                         files of
                    None \<Rightarrow> trim (drop (nat (indexOf (trim (grp m 3)) 58) + 1) (trim (grp m 3)))
                  | Some a \<Rightarrow>
                      trim (replaceStr
                        (trim (drop (nat (indexOf (trim (grp m 3)) 58) + 1) (trim (grp m 3))))
                        (originalText a) []))
                 @ concat (map (\<lambda>c. 10 # c) (continuationLines i (chatLines text)))
          else kind msg = System \<and> sender msg = js ''System'' \<and> attachment msg = None \<and>
               systemType msg = Some (getSystemMessageType (trim (grp m 3))) \<and>
               message msg = trim (grp m 3) @
                 concat (map (\<lambda>c. 10 # c) (continuationLines i (chatLines text)))))) \<and>
   (\<forall>files :: jsstring \<rightharpoonup> 'b.
      parseChat (js ''1/2/24, 10:31 AM - Bob joined using this group's invite link'') files =
      [\<lparr>idIndex = 0, date = js ''1/2/24'', time = js ''10:31 AM'', sender = js ''System'',
        message = js ''Bob joined using this group's invite link'', attachment = None,
        kind = System, systemType = Some Joined\<rparr>]) \<and>
   (\<forall>files :: jsstring \<rightharpoonup> 'b.
      parseChat (js ''1/2/24, 10:30 AM - Alice: see: this'') files =
      [\<lparr>idIndex = 0, date = js ''1/2/24'', time = js ''10:30 AM'', sender = js ''Alice'',
        message = js ''see: this'', attachment = None, kind = Message, systemType = None\<rparr>]) \<and>
   (\<forall>files :: jsstring \<rightharpoonup> 'b.
      parseChat (js ''1/2/24, 10:31 AM - :) hi: there'') files =
      [\<lparr>idIndex = 0, date = js ''1/2/24'', time = js ''10:31 AM'', sender = js ''System'',
        message = js '':) hi: there'', attachment = None, kind = System,
        systemType = Some Other\<rparr>])"
proof (intro conjI allI impI)
  fix chatContent i m and files :: "jsstring \<rightharpoonup> 'b"
  assume a: "i < length (chatLines chatContent) \<and> dateTimeMatch (chatLines chatContent ! i) = Some m"
  let ?msg = "blockMessage files ((i, m), continuationLines i (chatLines chatContent))"
  let ?mt = "trim (drop (nat (indexOf (trim (grp m 3)) 58) + 1) (trim (grp m 3)))"
  have f: "filter (\<lambda>x. idIndex x = i) (parseChat chatContent files) = [?msg]"
    using a by (intro message_of_header) simp_all
  have p: "if 0 < indexOf (trim (grp m 3)) 58
          then kind ?msg = Message \<and> systemType ?msg = None \<and>
               sender ?msg = trim (take (nat (indexOf (trim (grp m 3)) 58)) (trim (grp m 3))) \<and>
               message ?msg =
                 (case extractAttachment ?mt files of
                    None \<Rightarrow> ?mt
                  | Some a \<Rightarrow> trim (replaceStr ?mt (originalText a) []))
                 @ concat (map (\<lambda>c. 10 # c) (continuationLines i (chatLines chatContent)))
          else kind ?msg = System \<and> sender ?msg = js ''System'' \<and> attachment ?msg = None \<and>
               systemType ?msg = Some (getSystemMessageType (trim (grp m 3))) \<and>
               message ?msg = trim (grp m 3) @
                 concat (map (\<lambda>c. 10 # c) (continuationLines i (chatLines chatContent)))"
    by (simp add: blockMessage_def appendLines_def headerMessage_def Let_def split: option.splits)
  show "\<exists>msg. filter (\<lambda>x. idIndex x = i) (parseChat chatContent files) = [msg] \<and>
         (if 0 < indexOf (trim (grp m 3)) 58
          then kind msg = Message \<and> systemType msg = None \<and>
               sender msg = trim (take (nat (indexOf (trim (grp m 3)) 58)) (trim (grp m 3))) \<and>
               message msg =
                 (case extractAttachment ?mt files of
                    None \<Rightarrow> ?mt
                  | Some a \<Rightarrow> trim (replaceStr ?mt (originalText a) []))
                 @ concat (map (\<lambda>c. 10 # c) (continuationLines i (chatLines chatContent)))
          else kind msg = System \<and> sender msg = js ''System'' \<and> attachment msg = None \<and>
               systemType msg = Some (getSystemMessageType (trim (grp m 3))) \<and>
               message msg = trim (grp m 3) @
                 concat (map (\<lambda>c. 10 # c) (continuationLines i (chatLines chatContent))))"
    using f p by (intro exI [of _ ?msg] conjI)
next
  fix files :: "jsstring \<rightharpoonup> 'b"
  show "parseChat (js ''1/2/24, 10:31 AM - Bob joined using this group's invite link'') files =
      [\<lparr>idIndex = 0, date = js ''1/2/24'', time = js ''10:31 AM'', sender = js ''System'',
        message = js ''Bob joined using this group's invite link'', attachment = None,
        kind = System, systemType = Some Joined\<rparr>]"
    by (simp add: rx_eval chat_eval)
next
  fix files :: "jsstring \<rightharpoonup> 'b"
  show "parseChat (js ''1/2/24, 10:30 AM - Alice: see: this'') files =
      [\<lparr>idIndex = 0, date = js ''1/2/24'', time = js ''10:30 AM'', sender = js ''Alice'',
        message = js ''see: this'', attachment = None, kind = Message, systemType = None\<rparr>]"
    by (simp add: rx_eval chat_eval)
next
  fix files :: "jsstring \<rightharpoonup> 'b"
  show "parseChat (js ''1/2/24, 10:31 AM - :) hi: there'') files =
      [\<lparr>idIndex = 0, date = js ''1/2/24'', time = js ''10:31 AM'', sender = js ''System'',
        message = js '':) hi: there'', attachment = None, kind = System,
        systemType = Some Other\<rparr>]"
    by (simp add: rx_eval chat_eval)
qed

theorem sender_split_at_first_colon_witness:
  "chatLines (js ''hello\<newline>1/2/24, 10:30 AM - Alice B: see: this\<newline>more'') =
     [js ''hello'', js ''1/2/24, 10:30 AM - Alice B: see: this'', js ''more''] \<and>
   map_option groups (dateTimeMatch (js ''1/2/24, 10:30 AM - Alice B: see: this'')) =
     Some [Some (js ''1/2/24, 10:30 AM - Alice B: see: this''), Some (js ''1/2/24''),
           Some (js ''10:30 AM''), Some (js ''Alice B: see: this'')] \<and>
   indexOf (js ''Alice B: see: this'') 58 = 7 \<and>
   (\<exists>msg. filter (\<lambda>x. idIndex x = 1)
            (parseChat (js ''hello\<newline>1/2/24, 10:30 AM - Alice B: see: this\<newline>more'')
               (Map.empty :: jsstring \<rightharpoonup> unit)) = [msg] \<and>
      kind msg = Message \<and> systemType msg = None \<and> sender msg = js ''Alice B'' \<and>
      message msg = js ''see: this\<newline>more'')"
proof -
  let ?t = "js ''hello\<newline>1/2/24, 10:30 AM - Alice B: see: this\<newline>more''"
  let ?h = "js ''1/2/24, 10:30 AM - Alice B: see: this''"
  let ?m = "\<lparr>index = 0, groups = [Some ?h, Some (js ''1/2/24''), Some (js ''10:30 AM''),
             Some (js ''Alice B: see: this'')]\<rparr>"
  let ?f = "Map.empty :: jsstring \<rightharpoonup> unit"
  have l: "chatLines ?t = [js ''hello'', ?h, js ''more'']"
    by (simp add: chatLines_def js_def trim_def isWhiteSpace_def)
  have m: "dateTimeMatch ?h = Some ?m"
    by (simp add: header_eval rx_eval)
  have c: "trim (grp ?m 3) = js ''Alice B: see: this''"
    by (simp add: rx_eval)
  have ix: "indexOf (js ''Alice B: see: this'') 58 = 7"
    by (simp add: js_def)
  have sd: "trim (take (nat 7) (js ''Alice B: see: this'')) = js ''Alice B''"
    by (simp add: rx_eval)
  have mt: "trim (drop (nat 7 + 1) (js ''Alice B: see: this'')) = js ''see: this''"
    by (simp add: rx_eval)
  have ea: "extractAttachment (js ''see: this'') ?f = None"
    by (simp add: rx_eval message_eval)
  have cl: "continuationLines 1 [js ''hello'', ?h, js ''more''] = [js ''more'']"
    by (simp add: continuationLines_def isHeader_def header_eval rx_eval)
  have "\<exists>msg. filter (\<lambda>x. idIndex x = 1) (parseChat ?t ?f) = [msg] \<and>
      kind msg = Message \<and> systemType msg = None \<and> sender msg = js ''Alice B'' \<and>
      message msg = js ''see: this'' @ concat (map (\<lambda>c. 10 # c) [js ''more''])"
    using sender_split_at_first_colon [where 'b = unit, THEN conjunct1, rule_format,
        of 1 ?t ?m ?f] m
    unfolding l c ix sd mt ea cl by simp
  then have "\<exists>msg. filter (\<lambda>x. idIndex x = 1) (parseChat ?t ?f) = [msg] \<and>
      kind msg = Message \<and> systemType msg = None \<and> sender msg = js ''Alice B'' \<and>
      message msg = js ''see: this\<newline>more''"
    by (simp add: js_def)
  with l m ix show ?thesis by simp
qed











lemma attachedPattern_empty: "rxExec attachedPattern 1 [] = None"
  by (simp add: attachedPattern_def rx_eval)

text \<open>
  Claim C6, as the code has it.  When the leftmost explicit marker of a body has a name that
  is absent from the file table, the explicit pattern resolves nothing (a later explicit
  marker is not tried) and \<open>extractAttachment\<close> goes on to the parenthetical and the bare file
  name patterns on the same body; whenever the resolver yields none the body is left as it
  is.  With \<open>missing.jpg\<close> absent from the file table the body \<open><attached: missing.jpg>\<close> yields
  no attachment and stays unchanged.  With only \<open>a.jpg\<close> in the file table,
  \<open><attached: missing.jpg> <attached: a.jpg>\<close> resolves nothing, and
  \<open><attached: a.jpg> <attached: missing.jpg>\<close>, whose leftmost marker is present, resolves
  \<open>a.jpg\<close>.
\<close>
theorem absent_marker_falls_through:
  "(\<forall>body (files :: jsstring \<rightharpoonup> 'b) m.
      rxExec attachedPattern 1 body = Some m \<and> files (trim (grp m 1)) = None \<longrightarrow>
      extractAttachment body files =
        (case fileAttachedMatch body files of
           Some a \<Rightarrow> Some a
         | None \<Rightarrow> directFileMatch body files)) \<and>
   (\<forall>(files :: jsstring \<rightharpoonup> 'b) idx m.
      0 < indexOf (trim (grp m 3)) 58 \<and>
      extractAttachment
        (trim (drop (nat (indexOf (trim (grp m 3)) 58) + 1) (trim (grp m 3)))) files = None \<longrightarrow>
      attachment (headerMessage files idx m) = None \<and>
      message (headerMessage files idx m) =
        trim (drop (nat (indexOf (trim (grp m 3)) 58) + 1) (trim (grp m 3)))) \<and>
   (\<forall>files :: jsstring \<rightharpoonup> 'b.
      files (js ''missing.jpg'') = None \<longrightarrow>
      extractAttachment (js ''<attached: missing.jpg>'') files = None \<and>
      parseChat (js ''1/2/24, 10:30 AM - Alice: <attached: missing.jpg>'') files =
        [\<lparr>idIndex = 0, date = js ''1/2/24'', time = js ''10:30 AM'', sender = js ''Alice'',
          message = js ''<attached: missing.jpg>'', attachment = None, kind = Message,
          systemType = None\<rparr>]) \<and>
   (\<forall>b :: 'b.
      extractAttachment (js ''<attached: missing.jpg> <attached: a.jpg>'') [js ''a.jpg'' \<mapsto> b] =
        None) \<and>
   (\<forall>b :: 'b.
      extractAttachment (js ''<attached: a.jpg> <attached: missing.jpg>'') [js ''a.jpg'' \<mapsto> b] =
        Some \<lparr>filename = js ''a.jpg'', fileType = Image,
              originalText = js ''<attached: a.jpg>'', blob = b\<rparr>)"
proof (intro conjI allI impI)
  fix body m and files :: "jsstring \<rightharpoonup> 'b"
  assume a: "rxExec attachedPattern 1 body = Some m \<and> files (trim (grp m 1)) = None"
  then have "body \<noteq> []"
    using attachedPattern_empty by auto
  moreover have "attachedMatch body files = None"
    using a by (simp add: attachedMatch_def Let_def)
  ultimately show "extractAttachment body files =
        (case fileAttachedMatch body files of
           Some a \<Rightarrow> Some a
         | None \<Rightarrow> directFileMatch body files)"
    by (simp add: extractAttachment_def)
next
  fix idx m and files :: "jsstring \<rightharpoonup> 'b"
  assume "0 < indexOf (trim (grp m 3)) 58 \<and>
      extractAttachment
        (trim (drop (nat (indexOf (trim (grp m 3)) 58) + 1) (trim (grp m 3)))) files = None"
  then show "attachment (headerMessage files idx m) = None"
    and "message (headerMessage files idx m) =
        trim (drop (nat (indexOf (trim (grp m 3)) 58) + 1) (trim (grp m 3)))"
    by (simp_all add: headerMessage_def Let_def)
next
  fix files :: "jsstring \<rightharpoonup> 'b"
  assume "files (js ''missing.jpg'') = None"
  then have f: "files [109, 105, 115, 115, 105, 110, 103, 46, 106, 112, 103] = None"
    by (simp add: js_def)
  show "extractAttachment (js ''<attached: missing.jpg>'') files = None"
    by (simp add: rx_eval message_eval f)
  show "parseChat (js ''1/2/24, 10:30 AM - Alice: <attached: missing.jpg>'') files =
        [\<lparr>idIndex = 0, date = js ''1/2/24'', time = js ''10:30 AM'', sender = js ''Alice'',
          message = js ''<attached: missing.jpg>'', attachment = None, kind = Message,
          systemType = None\<rparr>]"
    by (simp add: rx_eval chat_eval f)
next
  fix b :: 'b
  show "extractAttachment (js ''<attached: missing.jpg> <attached: a.jpg>'') [js ''a.jpg'' \<mapsto> b] =
        None"
    by (simp add: rx_eval message_eval)
next
  fix b :: 'b
  show "extractAttachment (js ''<attached: a.jpg> <attached: missing.jpg>'') [js ''a.jpg'' \<mapsto> b] =
        Some \<lparr>filename = js ''a.jpg'', fileType = Image,
              originalText = js ''<attached: a.jpg>'', blob = b\<rparr>"
    by (simp add: rx_eval message_eval)
qed

theorem absent_marker_counterexample:
  "map_option groups (rxExec attachedPattern 1 (js ''<attached: missing.jpg> IMG-1.jpg'')) =
     Some [Some (js ''<attached: missing.jpg>''), Some (js ''missing.jpg'')] \<and>
   [js ''IMG-1.jpg'' \<mapsto> ()] (js ''missing.jpg'') = None \<and>
   extractAttachment (js ''<attached: missing.jpg> IMG-1.jpg'') [js ''IMG-1.jpg'' \<mapsto> ()] =
     Some \<lparr>filename = js ''IMG-1.jpg'', fileType = Image, originalText = js ''IMG-1.jpg'',
           blob = ()\<rparr> \<and>
   parseChat (js ''1/2/24, 10:30 AM - Alice: <attached: missing.jpg> IMG-1.jpg'')
       [js ''IMG-1.jpg'' \<mapsto> ()] =
     [\<lparr>idIndex = 0, date = js ''1/2/24'', time = js ''10:30 AM'', sender = js ''Alice'',
       message = js ''<attached: missing.jpg>'',
       attachment = Some \<lparr>filename = js ''IMG-1.jpg'', fileType = Image,
                            originalText = js ''IMG-1.jpg'', blob = ()\<rparr>,
       kind = Message, systemType = None\<rparr>]"
  by (simp add: rx_eval chat_eval)

theorem absent_marker_falls_through_witness:
  "map_option groups (rxExec attachedPattern 1 (js ''<attached: a.jpg> IMG-1.jpg'')) =
     Some [Some (js ''<attached: a.jpg>''), Some (js ''a.jpg'')] \<and>
   [js ''IMG-1.jpg'' \<mapsto> ()] (js ''a.jpg'') = None \<and>
   extractAttachment (js ''<attached: a.jpg> IMG-1.jpg'') [js ''IMG-1.jpg'' \<mapsto> ()] =
     (case fileAttachedMatch (js ''<attached: a.jpg> IMG-1.jpg'') [js ''IMG-1.jpg'' \<mapsto> ()] of
        Some a \<Rightarrow> Some a
      | None \<Rightarrow> directFileMatch (js ''<attached: a.jpg> IMG-1.jpg'') [js ''IMG-1.jpg'' \<mapsto> ()]) \<and>
   (Map.empty :: jsstring \<rightharpoonup> unit) (js ''missing.jpg'') = None \<and>
   extractAttachment (js ''<attached: missing.jpg>'') (Map.empty :: jsstring \<rightharpoonup> unit) = None \<and>
   parseChat (js ''1/2/24, 10:30 AM - Alice: <attached: missing.jpg>'')
       (Map.empty :: jsstring \<rightharpoonup> unit) =
     [\<lparr>idIndex = 0, date = js ''1/2/24'', time = js ''10:30 AM'', sender = js ''Alice'',
       message = js ''<attached: missing.jpg>'', attachment = None, kind = Message,
       systemType = None\<rparr>]"
proof -
  let ?b = "js ''<attached: a.jpg> IMG-1.jpg''"
  let ?f = "[js ''IMG-1.jpg'' \<mapsto> ()]"
  let ?m = "\<lparr>index = 0, groups = [Some (js ''<attached: a.jpg>''), Some (js ''a.jpg'')]\<rparr>"
  have m: "rxExec attachedPattern 1 ?b = Some ?m"
    by (simp add: attachedPattern_def rx_eval)
  have n: "?f (trim (grp ?m 1)) = None"
    by (simp add: rx_eval)
  have e: "(Map.empty :: jsstring \<rightharpoonup> unit) (js ''missing.jpg'') = None"
    by simp
  note w1 = absent_marker_falls_through [where 'b = unit, THEN conjunct1, rule_format, of ?b ?m ?f]
  note w3 = absent_marker_falls_through [where 'b = unit, THEN conjunct2, THEN conjunct2,
      THEN conjunct1, rule_format,
      of "Map.empty :: jsstring \<rightharpoonup> unit", OF e]
  show ?thesis
    using w1 w3 m n by (simp add: js_def)
qed

section \<open>Properties of the pattern matcher\<close>

lemma firstOf_Seq:
  "firstOf a s = Some x \<Longrightarrow> firstOf b x = Some y \<Longrightarrow> firstOf (Seq a b) s = Some y"
  by (auto simp: firstOf_def split: list.splits)

lemma firstOf_Chr: "p x \<Longrightarrow> firstOf (Chr p) (i, x # xs, c) = Some (Suc i, xs, c)"
  by (simp add: firstOf_def)

lemma firstOf_Grp:
  "firstOf a (i, inp, c) = Some (j, inp', c') \<Longrightarrow>
     firstOf (Grp k a) (i, inp, c) = Some (j, inp', c'[k := Some (take (j - i) inp)])"
  by (auto simp: firstOf_def split: list.splits)

lemma rxm_Star_class_step:
  "p x \<Longrightarrow> rxm (Star True (Chr p)) (i, x # xs, c) =
     rxm (Star True (Chr p)) (Suc i, xs, c) @ [(i, x # xs, c)]"
  by (subst rxm.simps(5)) simp

lemma rxm_Star_class_stop:
  "ys = [] \<or> \<not> p (hd ys) \<Longrightarrow> rxm (Star True (Chr p)) (i, ys, c) = [(i, ys, c)]"
  by (subst rxm.simps(5)) (cases ys; simp)

lemma firstOf_Star_class:
  "list_all p xs \<Longrightarrow> ys = [] \<or> \<not> p (hd ys) \<Longrightarrow>
     firstOf (Star True (Chr p)) (i, xs @ ys, c) = Some (i + length xs, ys, c)"
proof (induction xs arbitrary: i)
  case Nil
  then show ?case
    by (simp add: firstOf_def rxm_Star_class_stop)
next
  case (Cons x xs)
  then have "firstOf (Star True (Chr p)) (Suc i, xs @ ys, c) = Some (Suc i + length xs, ys, c)"
    by simp
  with Cons.prems show ?case
    by (simp add: firstOf_def rxm_Star_class_step split: list.splits)
qed

lemma rxAt_firstOf:
  "firstOf r (i, inp, replicate (Suc n) None) = Some (j, inp', c) \<Longrightarrow>
     rxAt r n i inp = Some \<lparr>index = i, groups = c[0 := Some (take (j - i) inp)]\<rparr>"
  by (auto simp: firstOf_def rxAt_def split: list.splits)

lemma rxExec_at_start:
  "rxAt r n 0 inp = Some m \<Longrightarrow> rxExec r n inp = Some m"
  by (cases inp) (simp_all add: rxExec_def)

lemma rxm_Star_mem:
  "s' \<in> set (rxm (Star g a) (i, inp, c)) \<Longrightarrow>
     s' = (i, inp, c) \<or>
     (\<exists>x \<in> set (filter (\<lambda>s'. length (fst (snd s')) < length inp) (rxm a (i, inp, c))).
        s' \<in> set (rxm (Star g a) x))"
  by (subst (asm) rxm.simps(5)) (auto simp: Let_def split: if_splits)

lemma rxm_consumes:
  "s' \<in> set (rxm r s) \<Longrightarrow>
     \<exists>w. fst (snd s) = w @ fst (snd s') \<and> fst s' = fst s + length w"
proof (induction r s arbitrary: s' rule: rxm.induct)
  case (1 s)
  then show ?case by simp
next
  case (2 p i inp c)
  then show ?case by (auto split: list.splits if_splits)
next
  case (3 a b s)
  from "3.prems" obtain x where x: "x \<in> set (rxm a s)" and s': "s' \<in> set (rxm b x)"
    by auto
  from "3.IH"(1) [OF x] obtain w1 where w1: "fst (snd s) = w1 @ fst (snd x)" "fst x = fst s + length w1"
    by blast
  from "3.IH"(2) [OF x s'] obtain w2 where w2: "fst (snd x) = w2 @ fst (snd s')" "fst s' = fst x + length w2"
    by blast
  show ?case
    using w1 w2 by (intro exI [of _ "w1 @ w2"]) simp
next
  case (4 a b s)
  from "4.prems" have "s' \<in> set (rxm a s) \<or> s' \<in> set (rxm b s)"
    by simp
  then show ?case
    using "4.IH" by blast
next
  case (5 greedy a i inp c)
  from rxm_Star_mem [OF "5.prems"] show ?case
  proof
    assume "s' = (i, inp, c)"
    then show ?thesis by simp
  next
    assume "\<exists>x \<in> set (filter (\<lambda>s'. length (fst (snd s')) < length inp) (rxm a (i, inp, c))).
        s' \<in> set (rxm (Star greedy a) x)"
    then obtain x where x: "x \<in> set (filter (\<lambda>s'. length (fst (snd s')) < length inp) (rxm a (i, inp, c)))"
        and s': "s' \<in> set (rxm (Star greedy a) x)"
      by blast
    from x have xa: "x \<in> set (rxm a (i, inp, c))" by simp
    from "5.IH"(1) [OF xa] obtain w1 where w1: "inp = w1 @ fst (snd x)" "fst x = i + length w1"
      by auto
    from "5.IH"(2) [OF x s'] obtain w2 where w2: "fst (snd x) = w2 @ fst (snd s')" "fst s' = fst x + length w2"
      by blast
    show ?thesis
      using w1 w2 by (intro exI [of _ "w1 @ w2"]) simp
  qed
next
  case (6 k a i inp c)
  then show ?case by fastforce
next
  case (7 i inp c)
  then show ?case by (auto split: if_splits)
next
  case (8 i inp c)
  then show ?case by (auto split: if_splits)
qed

lemma rxm_frame:
  "s' \<in> set (rxm r s) \<Longrightarrow>
     length (snd (snd s')) = length (snd (snd s)) \<and>
     (\<forall>k. k \<notin> groupsOf r \<longrightarrow> snd (snd s') ! k = snd (snd s) ! k)"
proof (induction r s arbitrary: s' rule: rxm.induct)
  case (1 s)
  then show ?case by simp
next
  case (2 p i inp c)
  then show ?case by (auto split: list.splits if_splits)
next
  case (3 a b s)
  from "3.prems" obtain x where x: "x \<in> set (rxm a s)" and s': "s' \<in> set (rxm b x)"
    by auto
  from "3.IH"(1) [OF x] "3.IH"(2) [OF x s'] show ?case
    by simp
next
  case (4 a b s)
  from "4.prems" have "s' \<in> set (rxm a s) \<or> s' \<in> set (rxm b s)"
    by simp
  then show ?case
    using "4.IH" by (elim disjE) simp_all
next
  case (5 greedy a i inp c)
  from rxm_Star_mem [OF "5.prems"] show ?case
  proof
    assume "s' = (i, inp, c)"
    then show ?thesis by simp
  next
    assume "\<exists>x \<in> set (filter (\<lambda>s'. length (fst (snd s')) < length inp) (rxm a (i, inp, c))).
        s' \<in> set (rxm (Star greedy a) x)"
    then obtain x where x: "x \<in> set (filter (\<lambda>s'. length (fst (snd s')) < length inp) (rxm a (i, inp, c)))"
        and s': "s' \<in> set (rxm (Star greedy a) x)"
      by blast
    from x have xa: "x \<in> set (rxm a (i, inp, c))" by simp
    from "5.IH"(1) [OF xa] "5.IH"(2) [OF x s'] show ?thesis
      by simp
  qed
next
  case (6 k a i inp c)
  from "6.prems" obtain j inp' c' where x: "(j, inp', c') \<in> set (rxm a (i, inp, c))"
      and s': "s' = (j, inp', c'[k := Some (take (j - i) inp)])"
    by auto
  from "6.IH" [OF x] show ?case
    by (simp add: s')
next
  case (7 i inp c)
  then show ?case by (auto split: if_splits)
next
  case (8 i inp c)
  then show ?case by (auto split: if_splits)
qed

lemma rxSearch_SomeD:
  "rxSearch r n i inp = Some m \<Longrightarrow> \<exists>k inp0. rxAt r n k inp0 = Some m"
proof (induction inp arbitrary: i)
  case Nil
  then show ?case by auto
next
  case (Cons x xs)
  then show ?case
    by (cases "rxAt r n i (x # xs)") auto
qed

lemma rxAt_SomeD:
  "rxAt r n i inp = Some m \<Longrightarrow>
     \<exists>j inp' c. (j, inp', c) \<in> set (rxm r (i, inp, replicate (Suc n) None)) \<and>
       groups m = c[0 := Some (take (j - i) inp)]"
  by (cases "rxm r (i, inp, replicate (Suc n) None)") (fastforce simp: rxAt_def)+

section \<open>The header pattern\<close>

lemma ends_base:
  "s' \<in> set (rxm (Seq (Chr p) (Seq (Chr q) Eps)) s) \<Longrightarrow>
     \<exists>w x y. fst (snd s) = w @ [x, y] @ fst (snd s') \<and> p x \<and> q y"
  by (cases s) (auto split: list.splits if_splits)

lemma ends_Seq:
  assumes b: "\<And>s s'. s' \<in> set (rxm b s) \<Longrightarrow>
      \<exists>w x y. fst (snd s) = w @ [x, y] @ fst (snd s') \<and> p x \<and> q y"
    and m: "s' \<in> set (rxm (Seq a b) s)"
  shows "\<exists>w x y. fst (snd s) = w @ [x, y] @ fst (snd s') \<and> p x \<and> q y"
proof -
  from m obtain s1 where s1: "s1 \<in> set (rxm a s)" and s': "s' \<in> set (rxm b s1)"
    by auto
  from rxm_consumes [OF s1] obtain w1 where w1: "fst (snd s) = w1 @ fst (snd s1)"
    by blast
  from b [OF s'] obtain w x y where "fst (snd s1) = w @ [x, y] @ fst (snd s')" "p x" "q y"
    by blast
  with w1 have "fst (snd s) = (w1 @ w) @ [x, y] @ fst (snd s') \<and> p x \<and> q y"
    by simp
  then show ?thesis by blast
qed

lemma times_two: "times 2 r = Seq r (Seq r Eps)"
  by (simp add: numeral_2_eq_2)

lemma time_ends_with_marker:
  assumes "s' \<in> set (rxm (seqs [rep 1 2 digit, chr 58, times 2 digit, Star True space,
                                times 2 (Chr isAPM)]) s)"
  shows "\<exists>w x y. fst (snd s) = w @ [x, y] @ fst (snd s') \<and> isAPM x \<and> isAPM y"
proof -
  let ?e = "Seq (Chr isAPM) (Seq (Chr isAPM) Eps)"
  note e1 = ends_Seq [of ?e isAPM isAPM _ "Star True space", OF ends_base]
  note e2 = ends_Seq [of "Seq (Star True space) ?e" isAPM isAPM _ "times 2 digit", OF e1]
  note e3 = ends_Seq [of "Seq (times 2 digit) (Seq (Star True space) ?e)" isAPM isAPM _ "chr 58", OF e2]
  note e4 = ends_Seq [of "Seq (chr 58) (Seq (times 2 digit) (Seq (Star True space) ?e))"
      isAPM isAPM _ "rep 1 2 digit", OF e3]
  have "seqs [rep 1 2 digit, chr 58, times 2 digit, Star True space, times 2 (Chr isAPM)] =
      Seq (rep 1 2 digit) (Seq (chr 58) (Seq (times 2 digit) (Seq (Star True space) ?e)))"
    by (simp only: seqs.simps times_two [of "Chr isAPM"])
  with assms show ?thesis
    by (intro e4) simp_all
qed

lemma rxm_Seq_mem:
  "s' \<in> set (rxm (Seq a b) s) \<longleftrightarrow> (\<exists>x \<in> set (rxm a s). s' \<in> set (rxm b x))"
  by simp

lemma rxm_Grp_mem:
  "s' \<in> set (rxm (Grp k a) (i, inp, c)) \<Longrightarrow>
     \<exists>j inp' c'. (j, inp', c') \<in> set (rxm a (i, inp, c)) \<and>
       s' = (j, inp', c'[k := Some (take (j - i) inp)])"
  by auto

lemma dateTimeRx_marker:
  assumes m: "(j, inp', c') \<in> set (rxm dateTimeRx (i, inp, c))" and len: "length c = 4"
  shows "\<exists>u x y. c' ! 2 = Some (u @ [x, y]) \<and> isAPM x \<and> isAPM y"
proof -
  define T where "T = seqs [rep 1 2 digit, chr 58, times 2 digit, Star True space,
      times 2 (Chr isAPM)]"
  define D where "D = seqs [rep 1 2 digit, chr 47, rep 1 2 digit, chr 47, rep 2 4 digit]"
  define TAIL where "TAIL = Seq (Star True space) (Seq (chr 45) (Seq (Star True space)
      (Seq (Grp 3 (plus True dot)) Eoi)))"
  have rx: "dateTimeRx =
      Seq Bol (Seq (Grp 1 D) (Seq (chr 44) (Seq (Star True space) (Seq (Grp 2 T) TAIL))))"
    by (simp add: dateTimeRx_def D_def T_def TAIL_def)
  from m obtain x1 x2 x3 x4 x5 where
    x1: "x1 \<in> set (rxm Bol (i, inp, c))" and
    x2: "x2 \<in> set (rxm (Grp 1 D) x1)" and
    x3: "x3 \<in> set (rxm (chr 44) x2)" and
    x4: "x4 \<in> set (rxm (Star True space) x3)" and
    x5: "x5 \<in> set (rxm (Grp 2 T) x4)" and
    fin: "(j, inp', c') \<in> set (rxm TAIL x5)"
    unfolding rx rxm_Seq_mem by blast
  have l4: "length (snd (snd x4)) = 4"
    using rxm_frame [OF x1] rxm_frame [OF x2] rxm_frame [OF x3] rxm_frame [OF x4] len by simp
  obtain i4 inp4 c4 where x4': "x4 = (i4, inp4, c4)"
    by (cases x4)
  from x5 obtain j5 inp5 c5 where
    t: "(j5, inp5, c5) \<in> set (rxm T (i4, inp4, c4))" and
    x5': "x5 = (j5, inp5, c5[2 := Some (take (j5 - i4) inp4)])"
    unfolding x4' by (blast dest: rxm_Grp_mem)
  from rxm_consumes [OF t] obtain w where w: "inp4 = w @ inp5" "j5 = i4 + length w"
    by auto
  from time_ends_with_marker [OF t [unfolded T_def]] obtain u x y where
    u: "inp4 = u @ [x, y] @ inp5" and apm: "isAPM x" "isAPM y"
    by auto
  from w u have "w = u @ [x, y]"
    by simp
  then have tk: "take (j5 - i4) inp4 = u @ [x, y]"
    using w by simp
  have "length c5 = 4"
    using rxm_frame [OF t] l4 by (simp add: x4')
  then have c52: "snd (snd x5) ! 2 = Some (u @ [x, y])"
    by (simp add: x5' tk)
  have "2 \<notin> groupsOf TAIL"
    by (simp add: TAIL_def plus_def dot_def chr_def space_def)
  with rxm_frame [OF fin] have "c' ! 2 = snd (snd x5) ! 2"
    by simp
  with c52 apm show ?thesis
    by auto
qed

lemma dateTimeMatch_marker:
  assumes "dateTimeMatch line = Some m"
  shows "\<exists>u x y. grp m 2 = u @ [x, y] \<and> isAPM x \<and> isAPM y"
proof -
  from assms obtain k inp0 where "rxAt dateTimeRx 3 k inp0 = Some m"
    unfolding dateTimeMatch_def rxExec_def by (blast dest: rxSearch_SomeD)
  then obtain j inp' c where
    mem: "(j, inp', c) \<in> set (rxm dateTimeRx (k, inp0, replicate (Suc 3) None))" and
    g: "groups m = c[0 := Some (take (j - k) inp0)]"
    by (blast dest: rxAt_SomeD)
  from dateTimeRx_marker [OF mem] obtain u x y where
    "c ! 2 = Some (u @ [x, y])" "isAPM x" "isAPM y"
    by auto
  then show ?thesis
    by (auto simp: grp_def g)
qed

lemma isAPM_iff:
  "isAPM x \<longleftrightarrow> x = 65 \<or> x = 80 \<or> x = 77 \<or> x = 97 \<or> x = 112 \<or> x = 109"
  by (auto simp: isAPM_def canonicalize_def)

lemma marker_any_case:
  assumes "isAPM x" and "isAPM y"
  shows "map_option groups (dateTimeMatch (js ''1/2/24, 10:30 '' @ [x, y] @ js '' - Alice: Hello'')) =
     Some [Some (js ''1/2/24, 10:30 '' @ [x, y] @ js '' - Alice: Hello''), Some (js ''1/2/24''),
           Some (js ''10:30 '' @ [x, y]), Some (js ''Alice: Hello'')]"
proof -
  have x: "x = 65 \<or> x = 80 \<or> x = 77 \<or> x = 97 \<or> x = 112 \<or> x = 109"
    using assms(1) by (simp add: isAPM_iff)
  have y: "y = 65 \<or> y = 80 \<or> y = 77 \<or> y = 97 \<or> y = 112 \<or> y = 109"
    using assms(2) by (simp add: isAPM_iff)
  show ?thesis
    using x y
    by (elim disjE; simp add: header_eval rx_eval)
qed

text \<open>
  Claim C2, as the code has it.  The am/pm marker of the header pattern is not optional: in
  every line that matches, the captured time ends with two letters out of A, P, M in either
  case, so a line whose time has no marker is no header.  Any casing of the marker, mixed
  case too, is accepted.
\<close>
theorem header_requires_am_pm_marker:
  "(\<forall>line m. dateTimeMatch line = Some m \<longrightarrow>
      (\<exists>u x y. grp m 2 = u @ [x, y] \<and> x \<in> set (js ''APMapm'') \<and> y \<in> set (js ''APMapm''))) \<and>
   (\<forall>x y. x \<in> set (js ''APMapm'') \<and> y \<in> set (js ''APMapm'') \<longrightarrow>
      map_option groups (dateTimeMatch (js ''1/2/24, 10:30 '' @ [x, y] @ js '' - Alice: Hello'')) =
        Some [Some (js ''1/2/24, 10:30 '' @ [x, y] @ js '' - Alice: Hello''), Some (js ''1/2/24''),
              Some (js ''10:30 '' @ [x, y]), Some (js ''Alice: Hello'')])"
proof (intro conjI allI impI)
  have apm: "\<And>x. isAPM x \<longleftrightarrow> x \<in> set (js ''APMapm'')"
    by (auto simp: isAPM_iff js_def)
  {
    fix line m
    assume "dateTimeMatch line = Some m"
    then show "\<exists>u x y. grp m 2 = u @ [x, y] \<and> x \<in> set (js ''APMapm'') \<and> y \<in> set (js ''APMapm'')"
      using dateTimeMatch_marker unfolding apm by blast
  }
  {
    fix x y
    assume "x \<in> set (js ''APMapm'') \<and> y \<in> set (js ''APMapm'')"
    then show "map_option groups (dateTimeMatch (js ''1/2/24, 10:30 '' @ [x, y] @ js '' - Alice: Hello'')) =
        Some [Some (js ''1/2/24, 10:30 '' @ [x, y] @ js '' - Alice: Hello''), Some (js ''1/2/24''),
              Some (js ''10:30 '' @ [x, y]), Some (js ''Alice: Hello'')]"
      using marker_any_case unfolding apm by blast
  }
qed

theorem header_requires_am_pm_marker_witness:
  "map_option groups (dateTimeMatch (js ''12/31/2024,7:05pM-ok'')) =
     Some [Some (js ''12/31/2024,7:05pM-ok''), Some (js ''12/31/2024''), Some (js ''7:05pM''),
           Some (js ''ok'')] \<and>
   (\<exists>u x y. js ''7:05pM'' = u @ [x, y] \<and> x \<in> set (js ''APMapm'') \<and> y \<in> set (js ''APMapm'')) \<and>
   of_char CHR ''p'' \<in> set (js ''APMapm'') \<and> of_char CHR ''M'' \<in> set (js ''APMapm'') \<and>
   map_option groups (dateTimeMatch (js ''1/2/24, 10:30 pM - Alice: Hello'')) =
     Some [Some (js ''1/2/24, 10:30 pM - Alice: Hello''), Some (js ''1/2/24''),
           Some (js ''10:30 pM''), Some (js ''Alice: Hello'')]"
proof -
  let ?m = "\<lparr>index = 0, groups = [Some (js ''12/31/2024,7:05pM-ok''), Some (js ''12/31/2024''),
             Some (js ''7:05pM''), Some (js ''ok'')]\<rparr>"
  have m: "dateTimeMatch (js ''12/31/2024,7:05pM-ok'') = Some ?m"
    by (simp add: header_eval rx_eval)
  have g: "grp ?m 2 = js ''7:05pM''"
    by (simp add: grp_def)
  have pm: "(of_char CHR ''p'' :: nat) \<in> set (js ''APMapm'')" "(of_char CHR ''M'' :: nat) \<in> set (js ''APMapm'')"
    by (simp_all add: js_def)
  have e: "js ''1/2/24, 10:30 '' @ [of_char CHR ''p'', of_char CHR ''M''] @ js '' - Alice: Hello'' =
      js ''1/2/24, 10:30 pM - Alice: Hello''"
      "js ''10:30 '' @ [of_char CHR ''p'', of_char CHR ''M''] = js ''10:30 pM''"
    by (simp_all add: js_def)
  note w1 = header_requires_am_pm_marker [THEN conjunct1, rule_format, OF m, unfolded g]
  note w2 = header_requires_am_pm_marker [THEN conjunct2, rule_format,
      of "of_char CHR ''p''" "of_char CHR ''M''", unfolded e]
  show ?thesis
    using w1 w2 pm m by simp
qed

theorem header_without_marker_counterexample:
  "dateTimeMatch (js ''1/2/24, 10:30 - Alice: Hello'') = None \<and>
   parseChat (js ''1/2/24, 10:30 - Alice: Hello'') (Map.empty :: jsstring \<rightharpoonup> unit) = []"
  by (simp add: rx_eval chat_eval)

section \<open>The attachment markers\<close>

lemma attachedPattern_marker:
  assumes "name \<noteq> []" and "62 \<notin> set name" and "\<not> isWhiteSpace (hd name)"
  shows "rxExec attachedPattern 1 (js ''<attached: '' @ name @ [62]) =
           Some \<lparr>index = 0, groups = [Some (js ''<attached: '' @ name @ [62]), Some name]\<rparr>"
proof -
  obtain n ns where name: "name = n # ns"
    using assms(1) by (cases name) auto
  define c :: "jsstring option list" where "c = [None, None]"
  define rest where "rest = name @ [62]"
  have inp: "js ''<attached: '' @ name @ [62] = js ''<attached:'' @ [32] @ rest"
    by (simp add: js_def rest_def)
  have s1: "firstOf (strI (js ''<attached:'')) (0, js ''<attached:'' @ [32] @ rest, c) = Some (10, [32] @ rest, c)"
    by (simp add: firstOf_def js_def chrI_def canonicalize_def)
  have "rest = [] \<or> \<not> isWhiteSpace (hd rest)"
    using assms(3) by (simp add: rest_def name)
  then have s2: "firstOf (Star True space) (10, [32] @ rest, c) = Some (10 + length [32::nat], rest, c)"
    unfolding space_def by (intro firstOf_Star_class) (simp_all add: isWhiteSpace_def)
  have n62: "n \<noteq> 62" and ns62: "list_all (\<lambda>x. x \<noteq> 62) ns"
    using assms(2) by (auto simp: name list_all_iff)
  have "firstOf (Chr (\<lambda>x. x \<noteq> 62)) (11, n # ns @ [62], c) = Some (Suc 11, ns @ [62], c)"
    using n62 by (intro firstOf_Chr)
  moreover have "firstOf (Star True (Chr (\<lambda>x. x \<noteq> 62))) (Suc 11, ns @ [62], c) =
      Some (Suc 11 + length ns, [62], c)"
    using ns62 by (intro firstOf_Star_class) simp_all
  ultimately have "firstOf (plus True (Chr (\<lambda>x. x \<noteq> 62))) (11, n # ns @ [62], c) =
      Some (Suc 11 + length ns, [62], c)"
    unfolding plus_def by (rule firstOf_Seq)
  then have "firstOf (Grp 1 (plus True (Chr (\<lambda>x. x \<noteq> 62)))) (11, n # ns @ [62], c) =
      Some (Suc 11 + length ns, [62], c[1 := Some (take (Suc 11 + length ns - 11) (n # ns @ [62]))])"
    by (rule firstOf_Grp)
  then have s3: "firstOf (Grp 1 (plus True (Chr (\<lambda>x. x \<noteq> 62)))) (10 + length [32::nat], rest, c) =
      Some (12 + length ns, [62], [None, Some name])"
    by (simp add: rest_def name c_def)
  have s4: "firstOf (chr 62) (12 + length ns, [62], [None, Some name]) =
      Some (Suc (12 + length ns), [], [None, Some name])"
    unfolding chr_def by (intro firstOf_Chr) simp
  have "firstOf attachedPattern (0, js ''<attached:'' @ [32] @ rest, c) =
      Some (Suc (12 + length ns), [], [None, Some name])"
    unfolding attachedPattern_def seqs.simps
    by (rule firstOf_Seq [OF s1 firstOf_Seq [OF s2 firstOf_Seq [OF s3 s4]]])
  then have "rxAt attachedPattern 1 0 (js ''<attached:'' @ [32] @ rest) =
      Some \<lparr>index = 0, groups = [None, Some name]
                  [0 := Some (take (Suc (12 + length ns) - 0) (js ''<attached:'' @ [32] @ rest))]\<rparr>"
    unfolding c_def by (intro rxAt_firstOf) (simp add: numeral_2_eq_2)
  then have "rxAt attachedPattern 1 0 (js ''<attached:'' @ [32] @ rest) =
      Some \<lparr>index = 0, groups = [Some (js ''<attached:'' @ [32] @ rest), Some name]\<rparr>"
    by (simp add: name js_def rest_def)
  then show ?thesis
    unfolding inp by (rule rxExec_at_start)
qed

lemma replaceStr_self: "s \<noteq> [] \<Longrightarrow> replaceStr s s [] = []"
  by (cases s) (simp_all add: startsWith_def)

lemma extractAttachment_fileType:
  "extractAttachment body files = Some a \<Longrightarrow> fileType a = getFileType (filename a)"
  by (auto simp: extractAttachment_def attachedMatch_def fileAttachedMatch_def directFileMatch_def
      Let_def split: if_splits option.splits)

lemma extractAttachment_marker:
  assumes "name \<noteq> []" and "62 \<notin> set name" and "\<not> isWhiteSpace (hd name)"
    and "files (trim name) = Some b"
  shows "extractAttachment (js ''<attached: '' @ name @ [62]) files =
           Some \<lparr>filename = trim name, fileType = getFileType (trim name),
                 originalText = js ''<attached: '' @ name @ [62], blob = b\<rparr>"
proof -
  have ne: "js ''<attached: '' @ name @ [62] \<noteq> []"
    by (simp add: js_def)
  have "attachedMatch (js ''<attached: '' @ name @ [62]) files =
           Some \<lparr>filename = trim name, fileType = getFileType (trim name),
                 originalText = js ''<attached: '' @ name @ [62], blob = b\<rparr>"
    unfolding attachedMatch_def attachedPattern_marker [OF assms(1-3)]
    using assms(4) by (simp add: grp_def Let_def)
  then show ?thesis
    using ne by (simp add: extractAttachment_def)
qed

lemma rxSearch_NoneI:
  assumes "\<And>i inp. P inp \<Longrightarrow> rxAt r n i inp = None"
    and "\<And>x xs. P (x # xs) \<Longrightarrow> P xs"
    and "P s"
  shows "rxSearch r n i s = None"
  using assms(3)
proof (induction s arbitrary: i)
  case Nil
  then show ?case by (simp add: assms(1))
next
  case (Cons x xs)
  then show ?case
    using assms(1) [of "x # xs" i] assms(2) [of x xs] by simp
qed

lemma rxAt_None: "rxm r (i, inp, replicate (Suc n) None) = [] \<Longrightarrow> rxAt r n i inp = None"
  by (simp add: rxAt_def)

lemma canonicalize_60: "canonicalize x = canonicalize 60 \<longleftrightarrow> x = 60"
  by (auto simp: canonicalize_def)

lemma attachedPattern_needs_lt:
  "60 \<notin> set inp \<Longrightarrow> rxm attachedPattern (i, inp, c) = []"
  by (cases inp) (simp_all add: attachedPattern_def js_def chrI_def canonicalize_60)

lemma attachedPattern_none: "60 \<notin> set s \<Longrightarrow> rxExec attachedPattern 1 s = None"
  unfolding rxExec_def
  by (rule rxSearch_NoneI [where P = "\<lambda>inp. 60 \<notin> set inp"])
    (simp_all add: rxAt_None attachedPattern_needs_lt)

lemma rxm_needs_char:
  assumes "s' \<in> set (rxm (Seq a (Seq b (Seq (chr x) r))) s)"
  shows "x \<in> set (fst (snd s))"
proof -
  from assms obtain s1 s2 s3 where s1: "s1 \<in> set (rxm a s)" and s2: "s2 \<in> set (rxm b s1)"
      and s3: "s3 \<in> set (rxm (chr x) s2)"
    by auto
  from s3 have "x \<in> set (fst (snd s2))"
    by (cases s2) (auto simp: chr_def split: list.splits if_splits)
  with rxm_consumes [OF s1] rxm_consumes [OF s2] show ?thesis
    by auto
qed

lemma fileAttachedPattern_needs_paren:
  "40 \<notin> set inp \<Longrightarrow> rxm fileAttachedPattern (i, inp, c) = []"
proof (rule ccontr)
  assume n: "40 \<notin> set inp" and "rxm fileAttachedPattern (i, inp, c) \<noteq> []"
  then obtain s' where "s' \<in> set (rxm fileAttachedPattern (i, inp, c))"
    by (cases "rxm fileAttachedPattern (i, inp, c)") auto
  then have "40 \<in> set (fst (snd (i, inp, c)))"
    unfolding fileAttachedPattern_def seqs.simps by (rule rxm_needs_char)
  with n show False by simp
qed

lemma fileAttachedPattern_none: "40 \<notin> set s \<Longrightarrow> rxExec fileAttachedPattern 2 s = None"
  unfolding rxExec_def
  by (rule rxSearch_NoneI [where P = "\<lambda>inp. 40 \<notin> set inp"])
    (simp_all add: rxAt_None fileAttachedPattern_needs_paren)

lemma firstOf_Alt1: "firstOf a s = Some y \<Longrightarrow> firstOf (Alt a b) s = Some y"
  by (auto simp: firstOf_def split: list.splits)

lemma firstOf_Alt2: "rxm a s = [] \<Longrightarrow> firstOf b s = Some y \<Longrightarrow> firstOf (Alt a b) s = Some y"
  by (auto simp: firstOf_def split: list.splits)

lemma firstOf_digits:
  assumes "ds \<noteq> []" and "list_all isDigit ds" and "ys = [] \<or> \<not> isDigit (hd ys)"
  shows "firstOf (plus True digit) (i, ds @ ys, c) = Some (i + length ds, ys, c)"
proof -
  obtain d ds' where ds: "ds = d # ds'"
    using assms(1) by (cases ds) auto
  have "firstOf (Chr isDigit) (i, d # ds' @ ys, c) = Some (Suc i, ds' @ ys, c)"
    using assms(2) by (intro firstOf_Chr) (simp add: ds)
  moreover have "firstOf (Star True (Chr isDigit)) (Suc i, ds' @ ys, c) =
      Some (Suc i + length ds', ys, c)"
    using assms(2,3) by (intro firstOf_Star_class) (simp_all add: ds)
  ultimately show ?thesis
    unfolding plus_def digit_def by (simp add: ds firstOf_Seq)
qed

lemma img_ext:
  assumes "ext \<in> set (map js [''jpg'', ''jpeg'', ''png'', ''gif'', ''webp'', ''mp4''])"
  shows "firstOf (Grp 2 (alts [strI (js ''jpg''), strI (js ''jpeg''), strI (js ''png''),
                         strI (js ''gif''), strI (js ''webp''), strI (js ''mp4'')]))
           (i, ext, [None, None, None, None]) =
         Some (i + length ext, [], [None, None, Some ext, None])"
  using assms
  by (auto simp: firstOf_def js_def chrI_def canonicalize_def list_update_numeral_Cons)

lemma doc_ext:
  assumes "ext \<in> set (map js [''pdf'', ''doc'', ''docx'', ''xls'', ''xlsx'', ''ppt'', ''pptx'',
      ''txt'', ''mp3'', ''wav'', ''ogg''])"
  shows "firstOf (Grp 3 (alts [strI (js ''pdf''),
                         Seq (strI (js ''doc'')) (opt (chrI 120)),
                         Seq (strI (js ''xls'')) (opt (chrI 120)),
                         Seq (strI (js ''ppt'')) (opt (chrI 120)),
                         strI (js ''txt''), strI (js ''mp3''), strI (js ''wav''),
                         strI (js ''ogg'')]))
           (i, ext, [None, None, None, None]) =
         Some (i + length ext, [], [None, None, None, Some ext])"
  using assms
  by (auto simp: firstOf_def js_def chrI_def opt_def canonicalize_def list_update_numeral_Cons)

lemma directFilePattern_img:
  assumes "ds \<noteq> []" and "list_all isDigit ds"
    and "ext \<in> set (map js [''jpg'', ''jpeg'', ''png'', ''gif'', ''webp'', ''mp4''])"
  shows "rxExec directFilePattern 3 (js ''IMG-'' @ ds @ 46 # ext) =
           Some \<lparr>index = 0, groups = [Some (js ''IMG-'' @ ds @ 46 # ext),
                    Some (js ''IMG-'' @ ds @ 46 # ext), Some ext, None]\<rparr>"
proof -
  define c :: "jsstring option list" where "c = [None, None, None, None]"
  define rest where "rest = ds @ 46 # ext"
  let ?body = "js ''IMG-'' @ rest"
  let ?n = "Suc (4 + length ds) + length ext"
  have len: "length ?body = ?n"
    by (simp add: js_def rest_def)
  have tk: "take (?n - 0) ?body = ?body"
    using len by simp
  have s1: "firstOf (strI (js ''IMG-'')) (0, ?body, c) = Some (4, rest, c)"
    by (simp add: firstOf_def js_def chrI_def canonicalize_def)
  have s2: "firstOf (plus True digit) (4, rest, c) = Some (4 + length ds, 46 # ext, c)"
    unfolding rest_def using assms(1,2) by (intro firstOf_digits) (simp_all add: isDigit_def)
  have s3: "firstOf (chr 46) (4 + length ds, 46 # ext, c) = Some (Suc (4 + length ds), ext, c)"
    unfolding chr_def by (intro firstOf_Chr) simp
  have s4: "firstOf (Grp 2 (alts [strI (js ''jpg''), strI (js ''jpeg''), strI (js ''png''),
                         strI (js ''gif''), strI (js ''webp''), strI (js ''mp4'')]))
           (Suc (4 + length ds), ext, c) = Some (?n, [], [None, None, Some ext, None])"
    unfolding c_def by (rule img_ext [OF assms(3)])
  have "firstOf directFilePattern (0, ?body, c) =
      Some (?n, [], [None, None, Some ext, None][1 := Some (take (?n - 0) ?body)])"
    unfolding directFilePattern_def seqs.simps
    by (intro firstOf_Grp firstOf_Alt1 firstOf_Seq [OF s1 firstOf_Seq [OF s2 firstOf_Seq [OF s3 s4]]])
  then have "rxAt directFilePattern 3 0 ?body =
      Some \<lparr>index = 0, groups = ([None, None, Some ext, None][1 := Some (take (?n - 0) ?body)])
                  [0 := Some (take (?n - 0) ?body)]\<rparr>"
    unfolding c_def by (intro rxAt_firstOf) (simp add: replicate_numeral_Cons)
  then have "rxAt directFilePattern 3 0 ?body =
      Some \<lparr>index = 0, groups = [Some ?body, Some ?body, Some ext, None]\<rparr>"
    unfolding tk by simp
  then show ?thesis
    unfolding rest_def by (rule rxExec_at_start)
qed

lemma directFilePattern_document:
  assumes "ds \<noteq> []" and "list_all isDigit ds"
    and "ext \<in> set (map js [''pdf'', ''doc'', ''docx'', ''xls'', ''xlsx'', ''ppt'', ''pptx'',
      ''txt'', ''mp3'', ''wav'', ''ogg''])"
  shows "rxExec directFilePattern 3 (js ''Document-'' @ ds @ 46 # ext) =
           Some \<lparr>index = 0, groups = [Some (js ''Document-'' @ ds @ 46 # ext),
                    Some (js ''Document-'' @ ds @ 46 # ext), None, Some ext]\<rparr>"
proof -
  define c :: "jsstring option list" where "c = [None, None, None, None]"
  define rest where "rest = ds @ 46 # ext"
  let ?body = "js ''Document-'' @ rest"
  let ?n = "Suc (9 + length ds) + length ext"
  have len: "length ?body = ?n"
    by (simp add: js_def rest_def)
  have tk: "take (?n - 0) ?body = ?body"
    using len by simp
  have s0: "rxm (seqs [strI (js ''IMG-''), plus True digit, chr 46,
            Grp 2 (alts [strI (js ''jpg''), strI (js ''jpeg''), strI (js ''png''),
                         strI (js ''gif''), strI (js ''webp''), strI (js ''mp4'')])])
          (0, ?body, c) = []"
    by (simp add: js_def chrI_def canonicalize_def)
  have s1: "firstOf (strI (js ''Document-'')) (0, ?body, c) = Some (9, rest, c)"
    by (simp add: firstOf_def js_def chrI_def canonicalize_def)
  have s2: "firstOf (plus True digit) (9, rest, c) = Some (9 + length ds, 46 # ext, c)"
    unfolding rest_def using assms(1,2) by (intro firstOf_digits) (simp_all add: isDigit_def)
  have s3: "firstOf (chr 46) (9 + length ds, 46 # ext, c) = Some (Suc (9 + length ds), ext, c)"
    unfolding chr_def by (intro firstOf_Chr) simp
  have s4: "firstOf (Grp 3 (alts [strI (js ''pdf''),
                         Seq (strI (js ''doc'')) (opt (chrI 120)),
                         Seq (strI (js ''xls'')) (opt (chrI 120)),
                         Seq (strI (js ''ppt'')) (opt (chrI 120)),
                         strI (js ''txt''), strI (js ''mp3''), strI (js ''wav''),
                         strI (js ''ogg'')]))
           (Suc (9 + length ds), ext, c) = Some (?n, [], [None, None, None, Some ext])"
    unfolding c_def by (rule doc_ext [OF assms(3)])
  have "firstOf directFilePattern (0, ?body, c) =
      Some (?n, [], [None, None, None, Some ext][1 := Some (take (?n - 0) ?body)])"
    unfolding directFilePattern_def
    by (intro firstOf_Grp firstOf_Alt2 [OF s0])
      (simp only: seqs.simps firstOf_Seq [OF s1 firstOf_Seq [OF s2 firstOf_Seq [OF s3 s4]]])
  then have "rxAt directFilePattern 3 0 ?body =
      Some \<lparr>index = 0, groups = ([None, None, None, Some ext][1 := Some (take (?n - 0) ?body)])
                  [0 := Some (take (?n - 0) ?body)]\<rparr>"
    unfolding c_def by (intro rxAt_firstOf) (simp add: replicate_numeral_Cons)
  then have "rxAt directFilePattern 3 0 ?body =
      Some \<lparr>index = 0, groups = [Some ?body, Some ?body, None, Some ext]\<rparr>"
    unfolding tk by simp
  then show ?thesis
    unfolding rest_def by (rule rxExec_at_start)
qed

lemma rxm_Star_lazy_step:
  "p x \<Longrightarrow> rxm (Star False (Chr p)) (i, x # xs, c) =
     (i, x # xs, c) # rxm (Star False (Chr p)) (Suc i, xs, c)"
  by (subst rxm.simps(5)) simp

lemma rxm_Star_lazy_hd: "\<exists>zs. rxm (Star False a) (i, inp, c) = (i, inp, c) # zs"
  by (subst rxm.simps(5)) (simp add: Let_def)

lemma rxm_Star_lazy_class:
  "list_all p xs \<Longrightarrow>
     \<exists>zs. rxm (Star False (Chr p)) (i, xs @ ys, c) =
       map (\<lambda>k. (i + k, drop k xs @ ys, c)) [0..<length xs] @ (i + length xs, ys, c) # zs"
proof (induction xs arbitrary: i)
  case Nil
  then show ?case
    using rxm_Star_lazy_hd [of "Chr p" i ys c] by simp
next
  case (Cons x xs)
  then obtain zs where zs: "rxm (Star False (Chr p)) (Suc i, xs @ ys, c) =
       map (\<lambda>k. (Suc i + k, drop k xs @ ys, c)) [0..<length xs] @ (Suc i + length xs, ys, c) # zs"
    by fastforce
  have "rxm (Star False (Chr p)) (i, (x # xs) @ ys, c) =
      (i, (x # xs) @ ys, c) # rxm (Star False (Chr p)) (Suc i, xs @ ys, c)"
    using Cons.prems by (simp add: rxm_Star_lazy_step)
  also have "\<dots> = map (\<lambda>k. (i + k, drop k (x # xs) @ ys, c)) [0..<length (x # xs)] @
      (i + length (x # xs), ys, c) # zs"
    unfolding zs by (simp add: map_upt_Suc del: upt_Suc)
  finally show ?case by blast
qed

lemma star_class_sound:
  "x \<in> set (rxm (Star g (Chr p)) (i, inp, c)) \<Longrightarrow> \<exists>w. inp = w @ fst (snd x) \<and> list_all p w"
proof (induction inp arbitrary: i)
  case Nil
  from rxm_Star_mem [OF Nil] show ?case by auto
next
  case (Cons y ys)
  from rxm_Star_mem [OF Cons.prems] show ?case
  proof
    assume "x = (i, y # ys, c)"
    then show ?thesis by simp
  next
    assume "\<exists>x' \<in> set (filter (\<lambda>s'. length (fst (snd s')) < length (y # ys))
        (rxm (Chr p) (i, y # ys, c))). x \<in> set (rxm (Star g (Chr p)) x')"
    then have py: "p y" and "x \<in> set (rxm (Star g (Chr p)) (Suc i, ys, c))"
      by (auto split: if_splits)
    from Cons.IH [OF this(2)] obtain w where "ys = w @ fst (snd x)" "list_all p w"
      by blast
    with py have "y # ys = (y # w) @ fst (snd x) \<and> list_all p (y # w)"
      by simp
    then show ?thesis by blast
  qed
qed

lemma nonempty_list_mem: "xs \<noteq> [] \<Longrightarrow> \<exists>x. x \<in> set xs"
  by (cases xs) auto

lemma paren_rest_fails:
  assumes "dropWhile isWhiteSpace inp = [] \<or> hd (dropWhile isWhiteSpace inp) \<noteq> 40"
  shows "rxm (Seq (Star True space) (Seq (chr 40) r)) (i, inp, c) = []"
proof (rule ccontr)
  assume "rxm (Seq (Star True space) (Seq (chr 40) r)) (i, inp, c) \<noteq> []"
  from nonempty_list_mem [OF this]
  obtain s' where "s' \<in> set (rxm (Seq (Star True space) (Seq (chr 40) r)) (i, inp, c))" ..
  then obtain x1 x2 where x1: "x1 \<in> set (rxm (Star True (Chr isWhiteSpace)) (i, inp, c))"
      and x2: "x2 \<in> set (rxm (chr 40) x1)"
    by (auto simp: space_def)
  from x2 obtain t where t: "fst (snd x1) = 40 # t"
    by (cases x1) (auto simp: chr_def split: list.splits if_splits)
  from star_class_sound [OF x1] obtain w where "inp = w @ fst (snd x1)" "list_all isWhiteSpace w"
    by blast
  then have "dropWhile isWhiteSpace inp = 40 # t"
    by (simp add: t list_all_iff isWhiteSpace_def)
  with assms show False by simp
qed

lemma firstOf_Seq_skip:
  assumes "rxm a s = pre @ x # post" and "\<forall>z \<in> set pre. rxm b z = []"
    and "firstOf b x = Some y"
  shows "firstOf (Seq a b) s = Some y"
proof -
  have e: "concat (map (rxm b) pre) = []"
    using assms(2) by simp
  obtain ys where ys: "rxm b x = y # ys"
    using assms(3) by (auto simp: firstOf_def split: list.splits)
  have "rxm (Seq a b) s = y # ys @ concat (map (rxm b) post)"
    by (simp add: assms(1) e ys)
  then show ?thesis
    by (simp add: firstOf_def)
qed

lemma dropWhile_tail_char:
  assumes "xs \<noteq> []" and "\<not> P (last xs)" and "c \<notin> set xs"
  shows "hd (dropWhile P (xs @ ys)) \<noteq> c \<and> dropWhile P (xs @ ys) \<noteq> []"
proof -
  have l: "last xs \<in> set xs"
    using assms(1) by simp
  then have d: "dropWhile P (xs @ ys) = dropWhile P xs @ ys"
    using assms(2) by (intro dropWhile_append1)
  have ne: "dropWhile P xs \<noteq> []"
    using l assms(2) by auto
  then have "hd (dropWhile P xs) \<in> set xs"
    by (meson hd_in_set set_dropWhileD)
  with assms(3) ne show ?thesis
    by (auto simp: d)
qed

lemma paren_rest_file:
  "firstOf (seqs [Star True space, chr 40,
      Grp 2 (Alt (strI (js ''file'')) (strI (js ''image''))),
      plus True space, strI (js ''attached''), chr 41])
     (i, js '' (file attached)'', [None, Some g, None]) =
   Some (i + 16, [], [None, Some g, Some (js ''file'')])"
  by (simp add: firstOf_def rx_eval)

lemma paren_rest_image:
  "firstOf (seqs [Star True space, chr 40,
      Grp 2 (Alt (strI (js ''file'')) (strI (js ''image''))),
      plus True space, strI (js ''attached''), chr 41])
     (i, js '' (image attached)'', [None, Some g, None]) =
   Some (i + 17, [], [None, Some g, Some (js ''image'')])"
  by (simp add: firstOf_def rx_eval)

lemma fileAttachedPattern_marker:
  assumes ne: "name \<noteq> []" and lt: "list_all (\<lambda>x. \<not> isLineTerminator x) name"
    and np: "40 \<notin> set name" and lw: "\<not> isWhiteSpace (last name)"
    and rest: "firstOf (seqs [Star True space, chr 40,
        Grp 2 (Alt (strI (js ''file'')) (strI (js ''image''))),
        plus True space, strI (js ''attached''), chr 41])
       (length name, suf, [None, Some name, None]) =
      Some (length name + length suf, [], [None, Some name, Some w])"
  shows "rxExec fileAttachedPattern 2 (name @ suf) =
           Some \<lparr>index = 0, groups = [Some (name @ suf), Some name, Some w]\<rparr>"
proof -
  obtain n ns where name: "name = n # ns"
    using ne by (cases name) auto
  define c :: "jsstring option list" where "c = [None, None, None]"
  define R where "R = seqs [Grp 2 (Alt (strI (js ''file'')) (strI (js ''image''))),
        plus True space, strI (js ''attached''), chr 41]"
  define upd where "upd = (\<lambda>(j :: nat, inp' :: jsstring, c' :: jsstring option list).
      (j, inp', c'[1 := Some (take (j - 0) (name @ suf))]))"
  define pre where "pre = map (\<lambda>k. (Suc 0 + k, drop k ns @ suf, c)) [0..<length ns]"
  have RR: "seqs [Star True space, chr 40,
        Grp 2 (Alt (strI (js ''file'')) (strI (js ''image''))),
        plus True space, strI (js ''attached''), chr 41] =
      Seq (Star True space) (Seq (chr 40) R)"
    by (simp add: R_def)
  have nlt: "\<not> isLineTerminator n" and nslt: "list_all (\<lambda>x. \<not> isLineTerminator x) ns"
    using lt by (simp_all add: name)
  obtain zs where zs: "rxm (Star False dot) (Suc 0, ns @ suf, c) =
      pre @ (Suc 0 + length ns, suf, c) # zs"
    unfolding dot_def pre_def using rxm_Star_lazy_class [OF nslt] by blast
  have "rxm (plus False dot) (0, name @ suf, c) = rxm (Star False dot) (Suc 0, ns @ suf, c)"
    using nlt by (simp add: plus_def dot_def name)
  then have g1: "rxm (Grp 1 (plus False dot)) (0, name @ suf, c) =
      map upd pre @ upd (Suc 0 + length ns, suf, c) # map upd zs"
    by (simp add: zs upd_def)
  have ux: "upd (Suc 0 + length ns, suf, c) = (length name, suf, [None, Some name, None])"
    by (simp add: upd_def c_def name)
  have fails: "\<forall>z \<in> set (map upd pre). rxm (Seq (Star True space) (Seq (chr 40) R)) z = []"
  proof
    fix z
    assume "z \<in> set (map upd pre)"
    then obtain k where k: "k < length ns"
        and z: "z = upd (Suc 0 + k, drop k ns @ suf, c)"
      by (auto simp: pre_def)
    have d: "drop k ns \<noteq> []"
      using k by simp
    have "last (drop k ns) = last name"
      using k by (auto simp: name)
    then have "\<not> isWhiteSpace (last (drop k ns))"
      using lw by simp
    moreover have "40 \<notin> set (drop k ns)"
      using np by (auto simp: name dest: in_set_dropD)
    ultimately have "hd (dropWhile isWhiteSpace (drop k ns @ suf)) \<noteq> 40 \<and>
        dropWhile isWhiteSpace (drop k ns @ suf) \<noteq> []"
      using d by (intro dropWhile_tail_char)
    then have "rxm (Seq (Star True space) (Seq (chr 40) R))
        (Suc 0 + k, drop k ns @ suf, c[1 := Some (take (Suc 0 + k - 0) (name @ suf))]) = []"
      by (intro paren_rest_fails) blast
    then show "rxm (Seq (Star True space) (Seq (chr 40) R)) z = []"
      unfolding z upd_def by (simp only: prod.case)
  qed
  have "firstOf fileAttachedPattern (0, name @ suf, c) =
      Some (length name + length suf, [], [None, Some name, Some w])"
  proof -
    have fp: "fileAttachedPattern =
        Seq (Grp 1 (plus False dot)) (Seq (Star True space) (Seq (chr 40) R))"
      by (simp add: fileAttachedPattern_def R_def)
    have "firstOf (Seq (Star True space) (Seq (chr 40) R)) (upd (Suc 0 + length ns, suf, c)) =
        Some (length name + length suf, [], [None, Some name, Some w])"
      unfolding ux using rest unfolding RR .
    with g1 fails show ?thesis
      unfolding fp by (rule firstOf_Seq_skip)
  qed
  then have "rxAt fileAttachedPattern 2 0 (name @ suf) =
      Some \<lparr>index = 0, groups = [None, Some name, Some w]
                  [0 := Some (take (length name + length suf - 0) (name @ suf))]\<rparr>"
    unfolding c_def by (intro rxAt_firstOf) (simp add: replicate_numeral_Cons)
  then have "rxAt fileAttachedPattern 2 0 (name @ suf) =
      Some \<lparr>index = 0, groups = [Some (name @ suf), Some name, Some w]\<rparr>"
    by simp
  then show ?thesis
    by (rule rxExec_at_start)
qed

lemma extractAttachment_parenthetical:
  assumes "name \<noteq> []" and "list_all (\<lambda>x. \<not> isLineTerminator x) name"
    and "40 \<notin> set name" and "60 \<notin> set name" and "\<not> isWhiteSpace (last name)"
    and w: "w = js ''file'' \<or> w = js ''image''"
    and f: "files (trim name) = Some b"
  shows "extractAttachment (name @ js '' ('' @ w @ js '' attached)'') files =
           Some \<lparr>filename = trim name, fileType = getFileType (trim name),
                 originalText = name @ js '' ('' @ w @ js '' attached)'', blob = b\<rparr>"
proof -
  let ?suf = "js '' ('' @ w @ js '' attached)''"
  have r: "firstOf (seqs [Star True space, chr 40,
        Grp 2 (Alt (strI (js ''file'')) (strI (js ''image''))),
        plus True space, strI (js ''attached''), chr 41])
       (length name, ?suf, [None, Some name, None]) =
      Some (length name + length ?suf, [], [None, Some name, Some w])"
    using w
  proof
    assume w: "w = js ''file''"
    have "?suf = js '' (file attached)''" "length ?suf = 16"
      by (simp_all add: w js_def)
    then show ?thesis
      using paren_rest_file [of "length name" name] by (simp add: w)
  next
    assume w: "w = js ''image''"
    have "?suf = js '' (image attached)''" "length ?suf = 17"
      by (simp_all add: w js_def)
    then show ?thesis
      using paren_rest_image [of "length name" name] by (simp add: w)
  qed
  have m: "rxExec fileAttachedPattern 2 (name @ ?suf) =
      Some \<lparr>index = 0, groups = [Some (name @ ?suf), Some name, Some w]\<rparr>"
    using assms(1,2,3,5) r by (rule fileAttachedPattern_marker)
  have "60 \<notin> set (name @ ?suf)"
    using assms(4) w by (auto simp: js_def)
  then have "rxExec attachedPattern 1 (name @ ?suf) = None"
    by (rule attachedPattern_none)
  then have "attachedMatch (name @ ?suf) files = None"
    unfolding attachedMatch_def by simp
  moreover have "fileAttachedMatch (name @ ?suf) files =
      Some \<lparr>filename = trim name, fileType = getFileType (trim name),
            originalText = name @ ?suf, blob = b\<rparr>"
    unfolding fileAttachedMatch_def m using f by (simp add: grp_def Let_def)
  moreover have "name @ ?suf \<noteq> []"
    using assms(1) by simp
  ultimately show ?thesis
    by (simp add: extractAttachment_def)
qed

lemma extractAttachment_bare:
  assumes "ds \<noteq> []" and "list_all isDigit ds"
    and shape: "(body = js ''IMG-'' @ ds @ 46 # ext \<and>
         ext \<in> set (map js [''jpg'', ''jpeg'', ''png'', ''gif'', ''webp'', ''mp4''])) \<or>
       (body = js ''Document-'' @ ds @ 46 # ext \<and>
         ext \<in> set (map js [''pdf'', ''doc'', ''docx'', ''xls'', ''xlsx'', ''ppt'', ''pptx'',
           ''txt'', ''mp3'', ''wav'', ''ogg'']))"
    and f: "files body = Some b"
  shows "extractAttachment body files =
           Some \<lparr>filename = body, fileType = getFileType body, originalText = body, blob = b\<rparr>"
proof -
  have d: "\<forall>x \<in> set ds. 48 \<le> x \<and> x \<le> 57"
    using assms(2) by (simp add: list_all_iff isDigit_def)
  have "60 \<notin> set ds" "40 \<notin> set ds"
    using d by fastforce+
  then have n: "60 \<notin> set body \<and> 40 \<notin> set body \<and> body \<noteq> []"
    using shape by (auto simp: js_def)
  from shape have "\<exists>g2 g3. rxExec directFilePattern 3 body =
      Some \<lparr>index = 0, groups = [Some body, Some body, g2, g3]\<rparr>"
    using directFilePattern_img [OF assms(1,2)] directFilePattern_document [OF assms(1,2)]
    by blast
  then have "directFileMatch body files =
      Some \<lparr>filename = body, fileType = getFileType body, originalText = body, blob = b\<rparr>"
    using f by (auto simp: directFileMatch_def grp_def Let_def)
  moreover have "attachedMatch body files = None"
    unfolding attachedMatch_def using attachedPattern_none [of body] n by simp
  moreover have "fileAttachedMatch body files = None"
    unfolding fileAttachedMatch_def using fileAttachedPattern_none [of body] n by simp
  ultimately show ?thesis
    using n by (simp add: extractAttachment_def)
qed

lemma headerMessage_lone_marker:
  assumes "0 < indexOf (trim (grp m 3)) 58"
    and "trim (drop (nat (indexOf (trim (grp m 3)) 58) + 1) (trim (grp m 3))) = body"
    and "extractAttachment body files = Some a" and "originalText a = body"
  shows "message (headerMessage files idx m) = [] \<and> attachment (headerMessage files idx m) = Some a"
proof -
  have "body \<noteq> []"
    using assms(3) by (auto simp: extractAttachment_def)
  then have "trim (replaceStr body body []) = []"
    by (simp add: replaceStr_self trim_def)
  then show ?thesis
    using assms by (simp add: headerMessage_def Let_def)
qed

text \<open>
  Claim C7.  When the text of an authored message is exactly one resolvable marker, the
  body left after stripping is empty and the descriptor is attached: whenever the resolver
  yields a descriptor whose marker text is the whole text, and in particular, without any
  assumption on the resolver, for each of the three marker forms:
  the explicit marker \<open><attached: name>\<close> whose name has no \<open>>\<close> in it, does not begin with
  white space and, trimmed, is in the file table;
  the parenthetical marker \<open>name (file attached)\<close> or \<open>name (image attached)\<close> whose name
  stays on one line, has neither \<open>(\<close> nor \<open><\<close> in it, does not end with white space and,
  trimmed, is in the file table;
  and the bare file name \<open>IMG-digits.ext\<close> or \<open>Document-digits.ext\<close>, with one of the
  extensions of the pattern, that is in the file table.
  The category of every descriptor is a function of the lower-cased text after the last dot
  of the file name.  With \<open>photo.jpg\<close> in the file table, the body \<open><attached: photo.jpg>\<close>
  gives the file name \<open>photo.jpg\<close>, the category image and an empty body; so does the body
  \<open>photo.jpg (file attached)\<close>, and with \<open>IMG-1.jpg\<close> in the file table the body \<open>IMG-1.jpg\<close>.
\<close>
theorem lone_marker_leaves_empty_body:
  "(\<forall>(files :: jsstring \<rightharpoonup> 'b) idx m a.
      0 < indexOf (trim (grp m 3)) 58 \<and>
      extractAttachment
        (trim (drop (nat (indexOf (trim (grp m 3)) 58) + 1) (trim (grp m 3)))) files = Some a \<and>
      originalText a = trim (drop (nat (indexOf (trim (grp m 3)) 58) + 1) (trim (grp m 3))) \<longrightarrow>
      message (headerMessage files idx m) = [] \<and>
      attachment (headerMessage files idx m) = Some a) \<and>
   (\<forall>(files :: jsstring \<rightharpoonup> 'b) idx m name b.
      0 < indexOf (trim (grp m 3)) 58 \<and>
      trim (drop (nat (indexOf (trim (grp m 3)) 58) + 1) (trim (grp m 3))) =
        js ''<attached: '' @ name @ [62] \<and>
      name \<noteq> [] \<and> 62 \<notin> set name \<and> \<not> isWhiteSpace (hd name) \<and> files (trim name) = Some b \<longrightarrow>
      message (headerMessage files idx m) = [] \<and>
      attachment (headerMessage files idx m) =
        Some \<lparr>filename = trim name, fileType = typeOfExtension (extension (trim name)),
              originalText = js ''<attached: '' @ name @ [62], blob = b\<rparr>) \<and>
   (\<forall>(files :: jsstring \<rightharpoonup> 'b) idx m name w b.
      0 < indexOf (trim (grp m 3)) 58 \<and>
      trim (drop (nat (indexOf (trim (grp m 3)) 58) + 1) (trim (grp m 3))) =
        name @ js '' ('' @ w @ js '' attached)'' \<and>
      (w = js ''file'' \<or> w = js ''image'') \<and>
      name \<noteq> [] \<and> list_all (\<lambda>x. \<not> isLineTerminator x) name \<and>
      40 \<notin> set name \<and> 60 \<notin> set name \<and> \<not> isWhiteSpace (last name) \<and>
      files (trim name) = Some b \<longrightarrow>
      message (headerMessage files idx m) = [] \<and>
      attachment (headerMessage files idx m) =
        Some \<lparr>filename = trim name, fileType = typeOfExtension (extension (trim name)),
              originalText = name @ js '' ('' @ w @ js '' attached)'', blob = b\<rparr>) \<and>
   (\<forall>(files :: jsstring \<rightharpoonup> 'b) idx m body ds ext b.
      0 < indexOf (trim (grp m 3)) 58 \<and>
      trim (drop (nat (indexOf (trim (grp m 3)) 58) + 1) (trim (grp m 3))) = body \<and>
      ds \<noteq> [] \<and> list_all isDigit ds \<and>
      (body = js ''IMG-'' @ ds @ 46 # ext \<and>
         ext \<in> set (map js [''jpg'', ''jpeg'', ''png'', ''gif'', ''webp'', ''mp4'']) \<or>
       body = js ''Document-'' @ ds @ 46 # ext \<and>
         ext \<in> set (map js [''pdf'', ''doc'', ''docx'', ''xls'', ''xlsx'', ''ppt'', ''pptx'',
           ''txt'', ''mp3'', ''wav'', ''ogg''])) \<and>
      files body = Some b \<longrightarrow>
      message (headerMessage files idx m) = [] \<and>
      attachment (headerMessage files idx m) =
        Some \<lparr>filename = body, fileType = typeOfExtension (extension body),
              originalText = body, blob = b\<rparr>) \<and>
   (\<forall>body (files :: jsstring \<rightharpoonup> 'b) a.
      extractAttachment body files = Some a \<longrightarrow>
      fileType a = typeOfExtension (extension (filename a))) \<and>
   (\<forall>(files :: jsstring \<rightharpoonup> 'b) b.
      files (js ''photo.jpg'') = Some b \<longrightarrow>
      parseChat (js ''1/2/24, 10:30 AM - Alice: <attached: photo.jpg>'') files =
        [\<lparr>idIndex = 0, date = js ''1/2/24'', time = js ''10:30 AM'', sender = js ''Alice'',
          message = [],
          attachment = Some \<lparr>filename = js ''photo.jpg'', fileType = Image,
                               originalText = js ''<attached: photo.jpg>'', blob = b\<rparr>,
          kind = Message, systemType = None\<rparr>] \<and>
      parseChat (js ''1/2/24, 10:30 AM - Alice: photo.jpg (file attached)'') files =
        [\<lparr>idIndex = 0, date = js ''1/2/24'', time = js ''10:30 AM'', sender = js ''Alice'',
          message = [],
          attachment = Some \<lparr>filename = js ''photo.jpg'', fileType = Image,
                               originalText = js ''photo.jpg (file attached)'', blob = b\<rparr>,
          kind = Message, systemType = None\<rparr>]) \<and>
   (\<forall>(files :: jsstring \<rightharpoonup> 'b) b.
      files (js ''IMG-1.jpg'') = Some b \<longrightarrow>
      parseChat (js ''1/2/24, 10:30 AM - Alice: IMG-1.jpg'') files =
        [\<lparr>idIndex = 0, date = js ''1/2/24'', time = js ''10:30 AM'', sender = js ''Alice'',
          message = [],
          attachment = Some \<lparr>filename = js ''IMG-1.jpg'', fileType = Image,
                               originalText = js ''IMG-1.jpg'', blob = b\<rparr>,
          kind = Message, systemType = None\<rparr>])"
proof (intro conjI allI impI)
  fix idx m a and files :: "jsstring \<rightharpoonup> 'b"
  let ?mt = "trim (drop (nat (indexOf (trim (grp m 3)) 58) + 1) (trim (grp m 3)))"
  assume h: "0 < indexOf (trim (grp m 3)) 58 \<and> extractAttachment ?mt files = Some a \<and>
      originalText a = ?mt"
  then have "message (headerMessage files idx m) = [] \<and>
      attachment (headerMessage files idx m) = Some a"
    by (intro headerMessage_lone_marker [of m ?mt]) simp_all
  then show "message (headerMessage files idx m) = []"
    and "attachment (headerMessage files idx m) = Some a"
    by simp_all
next
  fix idx m name and b :: 'b and files :: "jsstring \<rightharpoonup> 'b"
  let ?mt = "trim (drop (nat (indexOf (trim (grp m 3)) 58) + 1) (trim (grp m 3)))"
  let ?a = "\<lparr>filename = trim name, fileType = getFileType (trim name),
              originalText = js ''<attached: '' @ name @ [62], blob = b\<rparr>"
  assume h: "0 < indexOf (trim (grp m 3)) 58 \<and> ?mt = js ''<attached: '' @ name @ [62] \<and>
      name \<noteq> [] \<and> 62 \<notin> set name \<and> \<not> isWhiteSpace (hd name) \<and> files (trim name) = Some b"
  then have e: "extractAttachment (js ''<attached: '' @ name @ [62]) files = Some ?a"
    using extractAttachment_marker [of name files b] by simp
  have "message (headerMessage files idx m) = [] \<and>
      attachment (headerMessage files idx m) = Some ?a"
    using h e by (intro headerMessage_lone_marker [of m "js ''<attached: '' @ name @ [62]"]) simp_all
  then show "message (headerMessage files idx m) = []"
    and "attachment (headerMessage files idx m) =
        Some \<lparr>filename = trim name, fileType = typeOfExtension (extension (trim name)),
              originalText = js ''<attached: '' @ name @ [62], blob = b\<rparr>"
    by (simp_all add: getFileType_def)
next
  fix idx m name w and b :: 'b and files :: "jsstring \<rightharpoonup> 'b"
  let ?mt = "trim (drop (nat (indexOf (trim (grp m 3)) 58) + 1) (trim (grp m 3)))"
  let ?body = "name @ js '' ('' @ w @ js '' attached)''"
  let ?a = "\<lparr>filename = trim name, fileType = getFileType (trim name),
              originalText = ?body, blob = b\<rparr>"
  assume h: "0 < indexOf (trim (grp m 3)) 58 \<and> ?mt = ?body \<and>
      (w = js ''file'' \<or> w = js ''image'') \<and>
      name \<noteq> [] \<and> list_all (\<lambda>x. \<not> isLineTerminator x) name \<and>
      40 \<notin> set name \<and> 60 \<notin> set name \<and> \<not> isWhiteSpace (last name) \<and>
      files (trim name) = Some b"
  then have e: "extractAttachment ?body files = Some ?a"
    by (intro extractAttachment_parenthetical) simp_all
  have "message (headerMessage files idx m) = [] \<and>
      attachment (headerMessage files idx m) = Some ?a"
    using h e by (intro headerMessage_lone_marker [of m ?body]) simp_all
  then show "message (headerMessage files idx m) = []"
    and "attachment (headerMessage files idx m) =
        Some \<lparr>filename = trim name, fileType = typeOfExtension (extension (trim name)),
              originalText = ?body, blob = b\<rparr>"
    by (simp_all add: getFileType_def)
next
  fix idx m body ds ext and b :: 'b and files :: "jsstring \<rightharpoonup> 'b"
  let ?mt = "trim (drop (nat (indexOf (trim (grp m 3)) 58) + 1) (trim (grp m 3)))"
  let ?a = "\<lparr>filename = body, fileType = getFileType body, originalText = body, blob = b\<rparr>"
  assume h: "0 < indexOf (trim (grp m 3)) 58 \<and> ?mt = body \<and>
      ds \<noteq> [] \<and> list_all isDigit ds \<and>
      (body = js ''IMG-'' @ ds @ 46 # ext \<and>
         ext \<in> set (map js [''jpg'', ''jpeg'', ''png'', ''gif'', ''webp'', ''mp4'']) \<or>
       body = js ''Document-'' @ ds @ 46 # ext \<and>
         ext \<in> set (map js [''pdf'', ''doc'', ''docx'', ''xls'', ''xlsx'', ''ppt'', ''pptx'',
           ''txt'', ''mp3'', ''wav'', ''ogg''])) \<and>
      files body = Some b"
  then have e: "extractAttachment body files = Some ?a"
    by (intro extractAttachment_bare [of ds body ext]) blast+
  have "message (headerMessage files idx m) = [] \<and>
      attachment (headerMessage files idx m) = Some ?a"
    using h e by (intro headerMessage_lone_marker [of m body]) simp_all
  then show "message (headerMessage files idx m) = []"
    and "attachment (headerMessage files idx m) =
        Some \<lparr>filename = body, fileType = typeOfExtension (extension body),
              originalText = body, blob = b\<rparr>"
    by (simp_all add: getFileType_def)
next
  fix body a and files :: "jsstring \<rightharpoonup> 'b"
  assume "extractAttachment body files = Some a"
  then show "fileType a = typeOfExtension (extension (filename a))"
    using extractAttachment_fileType by (simp add: getFileType_def)
next
  fix b :: 'b and files :: "jsstring \<rightharpoonup> 'b"
  assume "files (js ''photo.jpg'') = Some b"
  then have f: "files [112, 104, 111, 116, 111, 46, 106, 112, 103] = Some b"
    by (simp add: js_def)
  show "parseChat (js ''1/2/24, 10:30 AM - Alice: <attached: photo.jpg>'') files =
        [\<lparr>idIndex = 0, date = js ''1/2/24'', time = js ''10:30 AM'', sender = js ''Alice'',
          message = [],
          attachment = Some \<lparr>filename = js ''photo.jpg'', fileType = Image,
                               originalText = js ''<attached: photo.jpg>'', blob = b\<rparr>,
          kind = Message, systemType = None\<rparr>]"
    by (simp add: rx_eval chat_eval f)
  show "parseChat (js ''1/2/24, 10:30 AM - Alice: photo.jpg (file attached)'') files =
        [\<lparr>idIndex = 0, date = js ''1/2/24'', time = js ''10:30 AM'', sender = js ''Alice'',
          message = [],
          attachment = Some \<lparr>filename = js ''photo.jpg'', fileType = Image,
                               originalText = js ''photo.jpg (file attached)'', blob = b\<rparr>,
          kind = Message, systemType = None\<rparr>]"
    by (simp add: rx_eval chat_eval f)
next
  fix b :: 'b and files :: "jsstring \<rightharpoonup> 'b"
  assume "files (js ''IMG-1.jpg'') = Some b"
  then have f: "files [73, 77, 71, 45, 49, 46, 106, 112, 103] = Some b"
    by (simp add: js_def)
  show "parseChat (js ''1/2/24, 10:30 AM - Alice: IMG-1.jpg'') files =
        [\<lparr>idIndex = 0, date = js ''1/2/24'', time = js ''10:30 AM'', sender = js ''Alice'',
          message = [],
          attachment = Some \<lparr>filename = js ''IMG-1.jpg'', fileType = Image,
                               originalText = js ''IMG-1.jpg'', blob = b\<rparr>,
          kind = Message, systemType = None\<rparr>]"
    by (simp add: rx_eval chat_eval f)
qed

theorem lone_marker_leaves_empty_body_witness:
  "map_option groups (dateTimeMatch (js ''1/2/24, 10:30 AM - Bob: <attached: report.PDF>'')) =
     Some [Some (js ''1/2/24, 10:30 AM - Bob: <attached: report.PDF>''), Some (js ''1/2/24''),
           Some (js ''10:30 AM''), Some (js ''Bob: <attached: report.PDF>'')] \<and>
   indexOf (js ''Bob: <attached: report.PDF>'') 58 = 3 \<and>
   trim (drop (nat 3 + 1) (js ''Bob: <attached: report.PDF>'')) =
     js ''<attached: '' @ js ''report.PDF'' @ [62] \<and>
   62 \<notin> set (js ''report.PDF'') \<and> \<not> isWhiteSpace (hd (js ''report.PDF'')) \<and>
   [js ''report.PDF'' \<mapsto> ()] (trim (js ''report.PDF'')) = Some () \<and>
   extractAttachment (js ''<attached: report.PDF>'') [js ''report.PDF'' \<mapsto> ()] =
     Some \<lparr>filename = js ''report.PDF'', fileType = Document,
           originalText = js ''<attached: report.PDF>'', blob = ()\<rparr> \<and>
   extension (js ''report.PDF'') = js ''pdf'' \<and>
   typeOfExtension (js ''pdf'') = Document \<and>
   message (headerMessage [js ''report.PDF'' \<mapsto> ()] 0
     \<lparr>index = 0, groups = [Some (js ''1/2/24, 10:30 AM - Bob: <attached: report.PDF>''),
        Some (js ''1/2/24''), Some (js ''10:30 AM''), Some (js ''Bob: <attached: report.PDF>'')]\<rparr>) = [] \<and>
   map_option groups (dateTimeMatch (js ''1/2/24, 10:30 AM - Bob: clip.mp4 (image attached)'')) =
     Some [Some (js ''1/2/24, 10:30 AM - Bob: clip.mp4 (image attached)''), Some (js ''1/2/24''),
           Some (js ''10:30 AM''), Some (js ''Bob: clip.mp4 (image attached)'')] \<and>
   trim (drop (nat 3 + 1) (js ''Bob: clip.mp4 (image attached)'')) =
     js ''clip.mp4'' @ js '' ('' @ js ''image'' @ js '' attached)'' \<and>
   list_all (\<lambda>x. \<not> isLineTerminator x) (js ''clip.mp4'') \<and>
   40 \<notin> set (js ''clip.mp4'') \<and> 60 \<notin> set (js ''clip.mp4'') \<and>
   \<not> isWhiteSpace (last (js ''clip.mp4'')) \<and>
   message (headerMessage [js ''clip.mp4'' \<mapsto> ()] 0
     \<lparr>index = 0, groups = [Some (js ''1/2/24, 10:30 AM - Bob: clip.mp4 (image attached)''),
        Some (js ''1/2/24''), Some (js ''10:30 AM''), Some (js ''Bob: clip.mp4 (image attached)'')]\<rparr>) = [] \<and>
   attachment (headerMessage [js ''clip.mp4'' \<mapsto> ()] 0
     \<lparr>index = 0, groups = [Some (js ''1/2/24, 10:30 AM - Bob: clip.mp4 (image attached)''),
        Some (js ''1/2/24''), Some (js ''10:30 AM''), Some (js ''Bob: clip.mp4 (image attached)'')]\<rparr>) =
     Some \<lparr>filename = js ''clip.mp4'', fileType = Video,
           originalText = js ''clip.mp4 (image attached)'', blob = ()\<rparr> \<and>
   map_option groups (dateTimeMatch (js ''1/2/24, 10:30 AM - Bob: Document-12.docx'')) =
     Some [Some (js ''1/2/24, 10:30 AM - Bob: Document-12.docx''), Some (js ''1/2/24''),
           Some (js ''10:30 AM''), Some (js ''Bob: Document-12.docx'')] \<and>
   trim (drop (nat 3 + 1) (js ''Bob: Document-12.docx'')) =
     js ''Document-'' @ js ''12'' @ 46 # js ''docx'' \<and>
   list_all isDigit (js ''12'') \<and>
   message (headerMessage [js ''Document-12.docx'' \<mapsto> ()] 0
     \<lparr>index = 0, groups = [Some (js ''1/2/24, 10:30 AM - Bob: Document-12.docx''),
        Some (js ''1/2/24''), Some (js ''10:30 AM''), Some (js ''Bob: Document-12.docx'')]\<rparr>) = [] \<and>
   attachment (headerMessage [js ''Document-12.docx'' \<mapsto> ()] 0
     \<lparr>index = 0, groups = [Some (js ''1/2/24, 10:30 AM - Bob: Document-12.docx''),
        Some (js ''1/2/24''), Some (js ''10:30 AM''), Some (js ''Bob: Document-12.docx'')]\<rparr>) =
     Some \<lparr>filename = js ''Document-12.docx'', fileType = Document,
           originalText = js ''Document-12.docx'', blob = ()\<rparr> \<and>
   [js ''photo.jpg'' \<mapsto> ()] (js ''photo.jpg'') = Some () \<and>
   parseChat (js ''1/2/24, 10:30 AM - Alice: <attached: photo.jpg>'') [js ''photo.jpg'' \<mapsto> ()] =
     [\<lparr>idIndex = 0, date = js ''1/2/24'', time = js ''10:30 AM'', sender = js ''Alice'',
       message = [],
       attachment = Some \<lparr>filename = js ''photo.jpg'', fileType = Image,
                            originalText = js ''<attached: photo.jpg>'', blob = ()\<rparr>,
       kind = Message, systemType = None\<rparr>] \<and>
   parseChat (js ''1/2/24, 10:30 AM - Alice: photo.jpg (file attached)'') [js ''photo.jpg'' \<mapsto> ()] =
     [\<lparr>idIndex = 0, date = js ''1/2/24'', time = js ''10:30 AM'', sender = js ''Alice'',
       message = [],
       attachment = Some \<lparr>filename = js ''photo.jpg'', fileType = Image,
                            originalText = js ''photo.jpg (file attached)'', blob = ()\<rparr>,
       kind = Message, systemType = None\<rparr>] \<and>
   parseChat (js ''1/2/24, 10:30 AM - Alice: IMG-1.jpg'') [js ''IMG-1.jpg'' \<mapsto> ()] =
     [\<lparr>idIndex = 0, date = js ''1/2/24'', time = js ''10:30 AM'', sender = js ''Alice'',
       message = [],
       attachment = Some \<lparr>filename = js ''IMG-1.jpg'', fileType = Image,
                            originalText = js ''IMG-1.jpg'', blob = ()\<rparr>,
       kind = Message, systemType = None\<rparr>]"
proof -
  let ?h = "js ''1/2/24, 10:30 AM - Bob: <attached: report.PDF>''"
  let ?m = "\<lparr>index = 0, groups = [Some ?h, Some (js ''1/2/24''), Some (js ''10:30 AM''),
             Some (js ''Bob: <attached: report.PDF>'')]\<rparr>"
  let ?f = "[js ''report.PDF'' \<mapsto> ()]"
  let ?a = "\<lparr>filename = js ''report.PDF'', fileType = Document,
           originalText = js ''<attached: report.PDF>'', blob = ()\<rparr>"
  have m: "dateTimeMatch ?h = Some ?m"
    by (simp add: header_eval rx_eval)
  have c: "trim (grp ?m 3) = js ''Bob: <attached: report.PDF>''"
    by (simp add: rx_eval)
  have ix: "indexOf (js ''Bob: <attached: report.PDF>'') 58 = 3"
    by (simp add: js_def)
  have mt: "trim (drop (nat 3 + 1) (js ''Bob: <attached: report.PDF>'')) =
      js ''<attached: '' @ js ''report.PDF'' @ [62]"
    by (simp add: rx_eval)
  have mt': "js ''<attached: '' @ js ''report.PDF'' @ [62] = js ''<attached: report.PDF>''"
    by (simp add: js_def)
  have nm: "js ''report.PDF'' \<noteq> []" "62 \<notin> set (js ''report.PDF'')"
      "\<not> isWhiteSpace (hd (js ''report.PDF''))" "?f (trim (js ''report.PDF'')) = Some ()"
    by (simp_all add: rx_eval)
  have ex: "extension (js ''report.PDF'') = js ''pdf''" "typeOfExtension (js ''pdf'') = Document"
    by (simp_all add: rx_eval chat_eval)
  have tn: "trim (js ''report.PDF'') = js ''report.PDF''"
    by (simp add: rx_eval)
  note w2 = lone_marker_leaves_empty_body [where 'b = unit, THEN conjunct2, THEN conjunct1,
      rule_format, of ?m "js ''report.PDF''" ?f "()" 0]
  have r2: "message (headerMessage ?f 0 ?m) = [] \<and> attachment (headerMessage ?f 0 ?m) = Some ?a"
    using w2 nm unfolding c ix mt tn ex mt' by simp
  have e: "extractAttachment (js ''<attached: report.PDF>'') ?f = Some ?a"
    using r2 unfolding headerMessage_def Let_def c ix mt mt' by simp

  let ?h3 = "js ''1/2/24, 10:30 AM - Bob: clip.mp4 (image attached)''"
  let ?m3 = "\<lparr>index = 0, groups = [Some ?h3, Some (js ''1/2/24''), Some (js ''10:30 AM''),
             Some (js ''Bob: clip.mp4 (image attached)'')]\<rparr>"
  let ?f3 = "[js ''clip.mp4'' \<mapsto> ()]"
  have m3: "dateTimeMatch ?h3 = Some ?m3"
    by (simp add: header_eval rx_eval)
  have c3: "trim (grp ?m3 3) = js ''Bob: clip.mp4 (image attached)''"
    by (simp add: rx_eval)
  have ix3: "indexOf (js ''Bob: clip.mp4 (image attached)'') 58 = 3"
    by (simp add: js_def)
  have mt3: "trim (drop (nat 3 + 1) (js ''Bob: clip.mp4 (image attached)'')) =
      js ''clip.mp4'' @ js '' ('' @ js ''image'' @ js '' attached)''"
    by (simp add: rx_eval)
  have mt3': "js ''clip.mp4'' @ js '' ('' @ js ''image'' @ js '' attached)'' =
      js ''clip.mp4 (image attached)''"
    by (simp add: js_def)
  have nm3: "js ''clip.mp4'' \<noteq> []" "list_all (\<lambda>x. \<not> isLineTerminator x) (js ''clip.mp4'')"
      "40 \<notin> set (js ''clip.mp4'')" "60 \<notin> set (js ''clip.mp4'')"
      "\<not> isWhiteSpace (last (js ''clip.mp4''))" "?f3 (trim (js ''clip.mp4'')) = Some ()"
    by (simp_all add: rx_eval)
  have ex3: "trim (js ''clip.mp4'') = js ''clip.mp4''"
      "typeOfExtension (extension (js ''clip.mp4'')) = Video"
    by (simp_all add: rx_eval chat_eval)
  note w3 = lone_marker_leaves_empty_body [where 'b = unit, THEN conjunct2, THEN conjunct2,
      THEN conjunct1, rule_format, of ?m3 "js ''clip.mp4''" "js ''image''" ?f3 "()" 0]
  have r3: "message (headerMessage ?f3 0 ?m3) = [] \<and>
      attachment (headerMessage ?f3 0 ?m3) =
        Some \<lparr>filename = js ''clip.mp4'', fileType = Video,
              originalText = js ''clip.mp4 (image attached)'', blob = ()\<rparr>"
    using w3 nm3 unfolding c3 ix3 mt3 ex3 mt3' by simp

  let ?h4 = "js ''1/2/24, 10:30 AM - Bob: Document-12.docx''"
  let ?m4 = "\<lparr>index = 0, groups = [Some ?h4, Some (js ''1/2/24''), Some (js ''10:30 AM''),
             Some (js ''Bob: Document-12.docx'')]\<rparr>"
  let ?f4 = "[js ''Document-12.docx'' \<mapsto> ()]"
  have m4: "dateTimeMatch ?h4 = Some ?m4"
    by (simp add: header_eval rx_eval)
  have c4: "trim (grp ?m4 3) = js ''Bob: Document-12.docx''"
    by (simp add: rx_eval)
  have ix4: "indexOf (js ''Bob: Document-12.docx'') 58 = 3"
    by (simp add: js_def)
  have mt4: "trim (drop (nat 3 + 1) (js ''Bob: Document-12.docx'')) =
      js ''Document-'' @ js ''12'' @ 46 # js ''docx''"
    by (simp add: rx_eval)
  have mt4': "js ''Document-'' @ js ''12'' @ 46 # js ''docx'' = js ''Document-12.docx''"
    by (simp add: js_def)
  have nm4: "js ''12'' \<noteq> []" "list_all isDigit (js ''12'')"
      "js ''docx'' \<in> set (map js [''pdf'', ''doc'', ''docx'', ''xls'', ''xlsx'', ''ppt'', ''pptx'',
           ''txt'', ''mp3'', ''wav'', ''ogg''])"
      "?f4 (js ''Document-12.docx'') = Some ()"
    by (simp_all add: rx_eval)
  have ex4: "typeOfExtension (extension (js ''Document-12.docx'')) = Document"
    by (simp add: rx_eval chat_eval)
  note w4 = lone_marker_leaves_empty_body [where 'b = unit, THEN conjunct2, THEN conjunct2,
      THEN conjunct2, THEN conjunct1, rule_format,
      of ?m4 "js ''Document-12.docx''" "js ''12''" "js ''docx''" ?f4 "()" 0]
  have r4: "message (headerMessage ?f4 0 ?m4) = [] \<and>
      attachment (headerMessage ?f4 0 ?m4) =
        Some \<lparr>filename = js ''Document-12.docx'', fileType = Document,
              originalText = js ''Document-12.docx'', blob = ()\<rparr>"
    using w4 nm4(1,2,4) nm4(3) unfolding c4 ix4 mt4 mt4' ex4 by simp

  have p: "[js ''photo.jpg'' \<mapsto> ()] (js ''photo.jpg'') = Some ()"
    by simp
  note w6 = lone_marker_leaves_empty_body [where 'b = unit, THEN conjunct2, THEN conjunct2,
      THEN conjunct2, THEN conjunct2, THEN conjunct2, THEN conjunct1, rule_format,
      of "[js ''photo.jpg'' \<mapsto> ()]" "()", OF p]
  have q: "[js ''IMG-1.jpg'' \<mapsto> ()] (js ''IMG-1.jpg'') = Some ()"
    by simp
  note w7 = lone_marker_leaves_empty_body [where 'b = unit, THEN conjunct2, THEN conjunct2,
      THEN conjunct2, THEN conjunct2, THEN conjunct2, THEN conjunct2, rule_format,
      of "[js ''IMG-1.jpg'' \<mapsto> ()]" "()", OF q]
  have a1: "map_option groups (dateTimeMatch ?h) = Some (groups ?m)"
    and a3: "map_option groups (dateTimeMatch ?h3) = Some (groups ?m3)"
    and a4: "map_option groups (dateTimeMatch ?h4) = Some (groups ?m4)"
    unfolding m m3 m4 by simp_all
  show ?thesis
    apply (intro conjI)
    using a1 a3 a4 ix mt mt3 mt4 nm nm3 nm4 ex r2 r3 r4 e w6 w7 p
    by simp_all
qed

end
